theory Spec2Isabelle
  imports Main "HOL-Library.Word" "HOL-Library.Monad_Syntax"
begin

section \<open>The dodobot serial bridge: data model\<close>

text \<open>
  A shallow embedding of \<^verbatim>\<open>dodobot_serial_bridge.cpp\<close>. A C++ \<^verbatim>\<open>char\<close> and a byte of the
  serial line are a \<^typ>\<open>char\<close>; a \<^verbatim>\<open>std::string\<close> is a \<^typ>\<open>string\<close>. The members of the
  class \<^verbatim>\<open>DodobotSerialBridge\<close> are the fields of the record \<open>bridge\<close>, which every
  member function takes and returns. Exceptions are values of the type \<open>exn\<close>.
\<close>

type_synonym uint8 = "8 word"
type_synonym uint16 = "16 word"
type_synonym uint32 = "32 word"
type_synonym uint64 = "64 word"

text \<open>
  Modelled from the spec: the header \<^verbatim>\<open>dodobot_serial_bridge.h\<close> that declares the marker
  bytes is not among the sources. The spec fixes two start bytes and one stop byte, distinct
  from each other; the values are the ones the device's error texts in
  \<^verbatim>\<open>logPacketErrorCode\<close> name (\<^verbatim>\<open>c1 != \x12\<close>, \<^verbatim>\<open>c2 != \x34\<close>) and the newline that the
  commented-out \<^verbatim>\<open>readline\<close> of \<^verbatim>\<open>readSerial\<close> stripped.
\<close>

definition PACKET_START_0 :: char where
  "PACKET_START_0 = CHR 0x12"

definition PACKET_START_1 :: char where
  "PACKET_START_1 = CHR 0x34"

definition PACKET_STOP :: char where
  "PACKET_STOP = CHR 0x0A"

definition TAB :: char where
  "TAB = CHR 0x09"

definition NUL :: char where
  "NUL = CHR 0x00"

datatype exn =
    InvalidArgument         \<comment> \<open>\<^verbatim>\<open>std::invalid_argument\<close> of stoi, stol, stof, stoul\<close>
  | OutOfRange              \<comment> \<open>\<^verbatim>\<open>std::out_of_range\<close> of the same conversions\<close>
  | ReadyTimeoutException   \<comment> \<open>thrown by \<^verbatim>\<open>checkReady\<close>\<close>
  | BufferOverrun           \<comment> \<open>a write past the end of \<^verbatim>\<open>_recvCharBuffer\<close> (undefined in C++)\<close>
  | SerialException         \<comment> \<open>thrown by \<^verbatim>\<open>serial::Serial::write\<close> (port closed, I/O error)\<close>

subsection \<open>Text to number: strtol, strtoul and the std::sto* wrappers\<close>

definition isspace :: "char \<Rightarrow> bool" where
  "isspace c = (c \<in> set [CHR 0x20, CHR 0x09, CHR 0x0A, CHR 0x0B, CHR 0x0C, CHR 0x0D])"

text \<open>The value of a digit in a base, as strtol reads it: 0-9, then letters of either case.\<close>

definition digit_of :: "nat \<Rightarrow> char \<Rightarrow> nat option" where
  "digit_of base c =
     (let n = (of_char c :: nat);
          v = (if 48 \<le> n \<and> n \<le> 57 then Some (n - 48)
               else if 97 \<le> n \<and> n \<le> 122 then Some (n - 87)
               else if 65 \<le> n \<and> n \<le> 90 then Some (n - 55)
               else None)
      in case v of None \<Rightarrow> None | Some d \<Rightarrow> if d < base then Some d else None)"

fun digits_value :: "nat \<Rightarrow> string \<Rightarrow> nat \<Rightarrow> nat" where
  "digits_value base [] acc = acc"
| "digits_value base (c # cs) acc =
     (case digit_of base c of
        None \<Rightarrow> acc
      | Some d \<Rightarrow> digits_value base cs (acc * base + d))"

text \<open>In base 16 an optional \<^verbatim>\<open>0x\<close> or \<^verbatim>\<open>0X\<close> is skipped when a hex digit follows it.\<close>

definition strip_0x :: "string \<Rightarrow> string" where
  "strip_0x s =
     (case s of
        a # x # h # r \<Rightarrow>
          if a = CHR ''0'' \<and> (x = CHR ''x'' \<or> x = CHR ''X'') \<and> digit_of 16 h \<noteq> None
          then h # r else s
      | _ \<Rightarrow> s)"

text \<open>
  The subject sequence of strtol and strtoul: leading white space, an optional sign, then
  the longest run of digits. \<open>None\<close> when there is no digit (no conversion); otherwise the
  sign and the magnitude. What follows the digits is ignored.
\<close>

definition strto :: "nat \<Rightarrow> string \<Rightarrow> (bool \<times> nat) option" where
  "strto base s =
     (let s1 = dropWhile isspace s;
          neg = (case s1 of [] \<Rightarrow> False | c # _ \<Rightarrow> c = CHR ''-'');
          s2 = (case s1 of [] \<Rightarrow> [] | c # r \<Rightarrow> if c = CHR ''-'' \<or> c = CHR ''+'' then r else s1);
          s3 = (if base = 16 then strip_0x s2 else s2)
      in case s3 of
           [] \<Rightarrow> None
         | c # _ \<Rightarrow> (case digit_of base c of
                       None \<Rightarrow> None
                     | Some _ \<Rightarrow> Some (neg, digits_value base s3 0)))"

definition signed_value :: "bool \<times> nat \<Rightarrow> int" where
  "signed_value p = (if fst p then - int (snd p) else int (snd p))"

text \<open>\<^verbatim>\<open>std::stoi(s)\<close>: base 10 into a 32-bit int.\<close>

definition stoi :: "string \<Rightarrow> exn + int" where
  "stoi s =
     (case strto 10 s of
        None \<Rightarrow> Inl InvalidArgument
      | Some p \<Rightarrow>
          if signed_value p < - (2 ^ 31) \<or> 2 ^ 31 \<le> signed_value p then Inl OutOfRange
          else Inr (signed_value p))"

text \<open>\<^verbatim>\<open>std::stol(s)\<close>: base 10 into a 64-bit long.\<close>

definition stol :: "string \<Rightarrow> exn + int" where
  "stol s =
     (case strto 10 s of
        None \<Rightarrow> Inl InvalidArgument
      | Some p \<Rightarrow>
          if signed_value p < - (2 ^ 63) \<or> 2 ^ 63 \<le> signed_value p then Inl OutOfRange
          else Inr (signed_value p))"

text \<open>
  \<^verbatim>\<open>std::stoul(s, nullptr, 16)\<close>: base 16 into a 64-bit unsigned long; a minus sign negates
  the magnitude in that type.
\<close>

definition stoul_hex :: "string \<Rightarrow> exn + uint64" where
  "stoul_hex s =
     (case strto 16 s of
        None \<Rightarrow> Inl InvalidArgument
      | Some p \<Rightarrow>
          if 2 ^ 64 \<le> int (snd p) then Inl OutOfRange
          else Inr (word_of_int (signed_value p)))"

subsection \<open>Number to text: the stream inserters\<close>

definition digit_char :: "nat \<Rightarrow> char" where
  "digit_char d = ''0123456789abcdef'' ! d"

fun dec_of_nat :: "nat \<Rightarrow> string" where
  "dec_of_nat n =
     (if n < 10 then [digit_char n] else dec_of_nat (n div 10) @ [digit_char (n mod 10)])"

definition dec_of_int :: "int \<Rightarrow> string" where
  "dec_of_int i = (if i < 0 then CHR ''-'' # dec_of_nat (nat (- i)) else dec_of_nat (nat i))"

fun hex_of_nat :: "nat \<Rightarrow> string" where
  "hex_of_nat n =
     (if n < 16 then [digit_char n] else hex_of_nat (n div 16) @ [digit_char (n mod 16)])"

text \<open>The two printers are unfolded on demand only: their equations would rewrite for ever.\<close>

declare dec_of_nat.simps [simp del] hex_of_nat.simps [simp del]

subsection \<open>The state of the bridge\<close>

record StructReadyState =
  robot_name :: string
  is_ready :: bool
  ready_time_ms :: uint32

record 'f StructRobotState =
  state_time_ms :: uint32
  is_active :: bool
  battery_ok :: bool
  motors_active :: bool
  loop_rate :: 'f

text \<open>
  The ROS messages the decoders fill and publish. Their declarations are not among the
  sources; each field holds the value the decoder converts for it. A time stamp is in
  nanoseconds. The type \<open>'f\<close> stands for a floating-point value, which this model does not
  interpret.
\<close>

record 'f DodobotDrive =
  drive_stamp :: int
  left_ticks :: int
  right_ticks :: int
  left_speed_ticks_per_s :: 'f
  right_speed_ticks_per_s :: 'f
  bump1 :: int
  bump2 :: int

record DodobotFSR =
  fsr_stamp :: int
  fsr_left :: uint16
  fsr_right :: uint16

record DodobotGripper =
  gripper_stamp :: int
  gripper_position :: int

record DodobotLinear =
  linear_stamp :: int
  linear_position :: uint16
  linear_has_error :: bool
  linear_is_homed :: bool
  linear_is_active :: bool

record 'f BatteryState =
  battery_stamp :: int
  battery_current :: 'f
  battery_voltage :: 'f

record DodobotTilter =
  tilter_stamp :: int
  tilter_position :: int

datatype 'f published =
    OnDrive "'f DodobotDrive"
  | OnBumper "'f DodobotDrive"
  | OnFSR DodobotFSR
  | OnGripper DodobotGripper
  | OnLinear DodobotLinear
  | OnBattery "'f BatteryState"
  | OnTilter DodobotTilter

text \<open>What the bridge writes to the ROS log, one constructor per message of the source.\<close>

datatype log_entry =
    DeviceMessage string           \<comment> \<open>\<^verbatim>\<open>Device message: ...\<close>\<close>
  | InvalidLength                  \<comment> \<open>\<^verbatim>\<open>Received packet has an invalid number of characters!\<close>\<close>
  | ChecksumParseFailed exn        \<comment> \<open>\<^verbatim>\<open>Failed to parse checksum.\<close>\<close>
  | ChecksumFailed uint8 uint16    \<comment> \<open>\<^verbatim>\<open>Checksum failed!\<close>\<close>
  | PacketNumSegmentMissing        \<comment> \<open>\<^verbatim>\<open>Failed to find packet number segment!\<close>\<close>
  | PacketNumMismatch uint32 uint64 \<comment> \<open>\<^verbatim>\<open>Received packet num doesn't match local count.\<close>\<close>
  | CategorySegmentMissing         \<comment> \<open>\<^verbatim>\<open>Failed to find category segment!\<close>\<close>
  | DispatchException exn          \<comment> \<open>\<^verbatim>\<open>Exception in processSerialPacket\<close>\<close>
  | NotEnoughSegments int          \<comment> \<open>the report of \<^verbatim>\<open>CHECK_SEGMENT\<close>\<close>
  | PacketError uint64             \<comment> \<open>\<^verbatim>\<open>Packet %d returned an error!\<close>\<close>
  | PacketErrorReason int          \<comment> \<open>one of the eight texts of \<^verbatim>\<open>logPacketErrorCode\<close>\<close>
  | ReadySignal string             \<comment> \<open>\<^verbatim>\<open>Received ready signal!\<close>\<close>
  | InvalidFormat char             \<comment> \<open>\<^verbatim>\<open>Invalid format %c\<close>\<close>
  | WritingSignalAgain             \<comment> \<open>\<^verbatim>\<open>Writing signal again\<close>\<close>
  | DeviceReady string             \<comment> \<open>\<^verbatim>\<open>Serial device is ready.\<close>\<close>
  | NoReadySignal                  \<comment> \<open>\<^verbatim>\<open>Failed to receive ready signal!\<close>\<close>
  | MainLoopException exn          \<comment> \<open>\<^verbatim>\<open>Exception in main loop\<close>\<close>

text \<open>
  The members of the class. \<open>rx\<close> is the input buffer of the serial port (the bytes received
  and not yet read; no byte arrives while a member function runs), \<open>tx\<close> the packets
  handed to \<^verbatim>\<open>_serialRef.write\<close>, oldest first, and \<open>wire\<close> the bytes the port has sent.
  \<open>ticks\<close> counts the questions asked of the outside world so far (the clock, \<^verbatim>\<open>ros::ok\<close>);
  the environment below answers the k-th question. The two packet counters are
  \<^verbatim>\<open>unsigned long long\<close> (the format \<^verbatim>\<open>%llu\<close> in \<^verbatim>\<open>loop\<close>); \<open>offsetTimeMs\<close> has the type of
  the argument \<^verbatim>\<open>setStartTime\<close> stores in it.
\<close>

record 'f bridge =
  serialBuffer :: string
  serialBufferIndex :: nat
  currentBufferSegment :: string
  currentSegmentNum :: int
  readPacketNum :: uint64
  writePacketNum :: uint64
  readyState :: StructReadyState
  robotState :: "'f StructRobotState"
  deviceStartTime :: int
  offsetTimeMs :: uint32
  drive_msg :: "'f DodobotDrive"
  fsr_msg :: DodobotFSR
  gripper_msg :: DodobotGripper
  linear_msg :: DodobotLinear
  battery_msg :: "'f BatteryState"
  tilter_msg :: DodobotTilter
  pubs :: "'f published list"
  logs :: "log_entry list"
  rx :: string
  tx :: "string list"
  wire :: string
  ticks :: nat

text \<open>
  The outside world: \<open>clock k\<close> is what \<^verbatim>\<open>ros::Time::now()\<close> returns (in nanoseconds) and
  \<open>ros_ok k\<close> what \<^verbatim>\<open>ros::ok()\<close> returns when it is the k-th question asked; \<open>stof\<close> is
  \<^verbatim>\<open>std::stof\<close> and \<open>fixed4\<close> the text that \<^verbatim>\<open>fixed << setprecision(4)\<close> gives a double;
  \<open>written k packet\<close> is how \<^verbatim>\<open>_serialRef.write(packet)\<close> ends when \<open>k\<close> packets have been
  handed to the port before: \<open>Inr\<close> of the byte count it returns (the source drops it), or
  \<open>Inl\<close> of the exception it throws; \<open>indeterminate\<close> is the value the uninitialised local \<^verbatim>\<open>c2\<close> of
  \<^verbatim>\<open>waitForPacketStart\<close> holds on entry; \<open>float_zero\<close> is the double 0.0.
\<close>

record 'f env =
  clock :: "nat \<Rightarrow> int"
  ros_ok :: "nat \<Rightarrow> bool"
  stof :: "string \<Rightarrow> exn + 'f"
  fixed4 :: "'f \<Rightarrow> string"
  written :: "nat \<Rightarrow> string \<Rightarrow> exn + nat"
  indeterminate :: char
  float_zero :: 'f

definition add_log :: "log_entry \<Rightarrow> 'f bridge \<Rightarrow> 'f bridge" where
  "add_log e b = b\<lparr>logs := logs b @ [e]\<rparr>"

definition publish :: "'f published \<Rightarrow> 'f bridge \<Rightarrow> 'f bridge" where
  "publish m b = b\<lparr>pubs := pubs b @ [m]\<rparr>"

definition now :: "'f env \<Rightarrow> 'f bridge \<Rightarrow> int \<times> 'f bridge" where
  "now e b = (clock e (ticks b), b\<lparr>ticks := ticks b + 1\<rparr>)"

definition ok :: "'f env \<Rightarrow> 'f bridge \<Rightarrow> bool \<times> 'f bridge" where
  "ok e b = (ros_ok e (ticks b), b\<lparr>ticks := ticks b + 1\<rparr>)"

text \<open>
  The constructor: the members as it sets them (the messages start zeroed), the port with
  nothing received and nothing sent, and one question asked (the clock, for
  \<^verbatim>\<open>deviceStartTime\<close>).
\<close>

definition DodobotSerialBridge :: "'f env \<Rightarrow> 'f bridge" where
  "DodobotSerialBridge e =
     \<lparr>serialBuffer = [], serialBufferIndex = 0, currentBufferSegment = [],
      currentSegmentNum = - 1, readPacketNum = 0, writePacketNum = 0,
      readyState = \<lparr>robot_name = [], is_ready = False, ready_time_ms = 0\<rparr>,
      robotState = \<lparr>state_time_ms = 0, is_active = False, battery_ok = False,
                    motors_active = False, loop_rate = float_zero e\<rparr>,
      deviceStartTime = clock e 0, offsetTimeMs = 0,
      drive_msg = \<lparr>drive_stamp = 0, left_ticks = 0, right_ticks = 0,
                   left_speed_ticks_per_s = float_zero e,
                   right_speed_ticks_per_s = float_zero e, bump1 = 0, bump2 = 0\<rparr>,
      fsr_msg = \<lparr>fsr_stamp = 0, fsr_left = 0, fsr_right = 0\<rparr>,
      gripper_msg = \<lparr>gripper_stamp = 0, gripper_position = 0\<rparr>,
      linear_msg = \<lparr>linear_stamp = 0, linear_position = 0, linear_has_error = False,
                    linear_is_homed = False, linear_is_active = False\<rparr>,
      battery_msg = \<lparr>battery_stamp = 0, battery_current = float_zero e,
                     battery_voltage = float_zero e\<rparr>,
      tilter_msg = \<lparr>tilter_stamp = 0, tilter_position = 0\<rparr>,
      pubs = [], logs = [], rx = [], tx = [], wire = [], ticks = 1\<rparr>"

text \<open>
  An environment for the examples: the clock advances one millisecond per question, ROS
  keeps running, the port sends every byte of every packet, and a floating-point value is stood for by the
  text it was read from or is printed as.
\<close>

definition sample_env :: "string env" where
  "sample_env =
     \<lparr>clock = (\<lambda>k. int k * 1000000), ros_ok = (\<lambda>k. True), stof = (\<lambda>s. Inr s),
      fixed4 = (\<lambda>s. s), written = (\<lambda>k packet. Inr (length packet)),
      indeterminate = CHR ''x'', float_zero = ''0.0''\<rparr>"

section \<open>Clock synchronizer\<close>

definition setStartTime :: "'f env \<Rightarrow> uint32 \<Rightarrow> 'f bridge \<Rightarrow> 'f bridge" where
  "setStartTime e time_ms b =
     (case now e b of (t, b1) \<Rightarrow> b1\<lparr>deviceStartTime := t, offsetTimeMs := time_ms\<rparr>)"

text \<open>
  \<^verbatim>\<open>time_ms - offsetTimeMs\<close> is a subtraction of two \<^verbatim>\<open>uint32_t\<close>; its value, a count of
  milliseconds below \<open>2^32\<close>, becomes a double, is divided by 1000 and added as a
  \<^verbatim>\<open>ros::Duration\<close>. The model keeps that duration exact, in nanoseconds.
\<close>

definition device_offset_ms :: "uint32 \<Rightarrow> uint32 \<Rightarrow> nat" where
  "device_offset_ms time_ms offset = unat (time_ms - offset)"

definition getDeviceTime :: "'f bridge \<Rightarrow> uint32 \<Rightarrow> int" where
  "getDeviceTime b time_ms =
     deviceStartTime b + int (device_offset_ms time_ms (offsetTimeMs b)) * 1000000"

section \<open>Segment tokenizer\<close>

text \<open>\<^verbatim>\<open>std::string::find(c, pos)\<close>: the first index at or after \<open>pos\<close> that holds \<open>c\<close>.\<close>

definition string_find :: "string \<Rightarrow> char \<Rightarrow> nat \<Rightarrow> nat option" where
  "string_find s c pos =
     (let skipped = takeWhile (\<lambda>x. x \<noteq> c) (drop pos s)
      in if length skipped = length (drop pos s) then None else Some (pos + length skipped))"

definition getNextSegment :: "'f bridge \<Rightarrow> bool \<times> 'f bridge" where
  "getNextSegment b =
     (if length (serialBuffer b) \<le> serialBufferIndex b
      then (False, b\<lparr>currentSegmentNum := - 1\<rparr>)
      else
        (let b1 = b\<lparr>currentSegmentNum := currentSegmentNum b + 1\<rparr>
         in case string_find (serialBuffer b) TAB (serialBufferIndex b) of
              None \<Rightarrow>
                (True, b1\<lparr>currentBufferSegment := drop (serialBufferIndex b) (serialBuffer b),
                           serialBufferIndex := length (serialBuffer b)\<rparr>)
            | Some separator \<Rightarrow>
                (True, b1\<lparr>currentBufferSegment :=
                             take (separator - serialBufferIndex b)
                               (drop (serialBufferIndex b) (serialBuffer b)),
                           serialBufferIndex := separator + 1\<rparr>)))"

section \<open>Packet dispatcher\<close>

text \<open>
  How a decode routine ends: it runs to its end, it returns early on a missing segment, or
  a conversion throws. The state it is paired with is the state at that moment: what was
  assigned before an early return or a throw stays assigned.
\<close>

datatype flow = Done | Returned | Raised exn

text \<open>
  Modelled from the spec: the macro \<^verbatim>\<open>CHECK_SEGMENT\<close> is defined in the header, which is
  not among the sources. By the spec a missing required segment aborts the category's
  decode and is reported; so the macro asks for the next segment and, when there is none,
  reports the ordinal and returns from the enclosing function. \<open>k\<close> is the rest of that
  function, given the segment.
\<close>

definition CHECK_SEGMENT ::
  "'f bridge \<Rightarrow> (string \<Rightarrow> 'f bridge \<Rightarrow> flow \<times> 'f bridge) \<Rightarrow> flow \<times> 'f bridge" where
  "CHECK_SEGMENT b k =
     (case getNextSegment b of
        (False, b1) \<Rightarrow> (Returned, add_log (NotEnoughSegments (currentSegmentNum b1 + 1)) b1)
      | (True, b1) \<Rightarrow> k (currentBufferSegment b1) b1)"

text \<open>A conversion that may throw, followed by the rest \<open>k\<close> of the function.\<close>

definition convert ::
  "exn + 'a \<Rightarrow> ('a \<Rightarrow> 'f bridge \<Rightarrow> flow \<times> 'f bridge) \<Rightarrow> 'f bridge \<Rightarrow> flow \<times> 'f bridge" where
  "convert r k b = (case r of Inl x \<Rightarrow> (Raised x, b) | Inr v \<Rightarrow> k v b)"

definition logPacketErrorCode :: "int \<Rightarrow> uint64 \<Rightarrow> 'f bridge \<Rightarrow> 'f bridge" where
  "logPacketErrorCode error_code packet_num b =
     (let b1 = add_log (PacketError packet_num) b
      in if 1 \<le> error_code \<and> error_code \<le> 8 then add_log (PacketErrorReason error_code) b1
         else b1)"

definition parseDrive :: "'f env \<Rightarrow> 'f bridge \<Rightarrow> flow \<times> 'f bridge" where
  "parseDrive e b0 =
     CHECK_SEGMENT b0 (\<lambda>seg. convert (stol seg) (\<lambda>v b.
     CHECK_SEGMENT (b\<lparr>drive_msg := (drive_msg b)\<lparr>drive_stamp := getDeviceTime b (word_of_int v)\<rparr>\<rparr>)
       (\<lambda>seg. convert (stol seg) (\<lambda>v b.
     CHECK_SEGMENT (b\<lparr>drive_msg := (drive_msg b)\<lparr>left_ticks := v\<rparr>\<rparr>)
       (\<lambda>seg. convert (stol seg) (\<lambda>v b.
     CHECK_SEGMENT (b\<lparr>drive_msg := (drive_msg b)\<lparr>right_ticks := v\<rparr>\<rparr>)
       (\<lambda>seg. convert (stof e seg) (\<lambda>v b.
     CHECK_SEGMENT (b\<lparr>drive_msg := (drive_msg b)\<lparr>left_speed_ticks_per_s := v\<rparr>\<rparr>)
       (\<lambda>seg. convert (stof e seg) (\<lambda>v b.
     (let b1 = b\<lparr>drive_msg := (drive_msg b)\<lparr>right_speed_ticks_per_s := v\<rparr>\<rparr>
      in (Done, publish (OnDrive (drive_msg b1)) b1))))))))))))"

text \<open>As in the source, the bumper reading is stored in \<^verbatim>\<open>drive_msg\<close> and that message is published.\<close>

definition parseBumper :: "'f env \<Rightarrow> 'f bridge \<Rightarrow> flow \<times> 'f bridge" where
  "parseBumper e b0 =
     CHECK_SEGMENT b0 (\<lambda>seg. convert (stol seg) (\<lambda>v b.
     CHECK_SEGMENT (b\<lparr>drive_msg := (drive_msg b)\<lparr>drive_stamp := getDeviceTime b (word_of_int v)\<rparr>\<rparr>)
       (\<lambda>seg. convert (stol seg) (\<lambda>v b.
     CHECK_SEGMENT (b\<lparr>drive_msg := (drive_msg b)\<lparr>bump1 := v\<rparr>\<rparr>)
       (\<lambda>seg. convert (stol seg) (\<lambda>v b.
     (let b1 = b\<lparr>drive_msg := (drive_msg b)\<lparr>bump2 := v\<rparr>\<rparr>
      in (Done, publish (OnBumper (drive_msg b1)) b1))))))))"

definition parseFSR :: "'f env \<Rightarrow> 'f bridge \<Rightarrow> flow \<times> 'f bridge" where
  "parseFSR e b0 =
     CHECK_SEGMENT b0 (\<lambda>seg. convert (stol seg) (\<lambda>v b.
     CHECK_SEGMENT (b\<lparr>fsr_msg := (fsr_msg b)\<lparr>fsr_stamp := getDeviceTime b (word_of_int v)\<rparr>\<rparr>)
       (\<lambda>seg. convert (stoi seg) (\<lambda>v b.
     CHECK_SEGMENT (b\<lparr>fsr_msg := (fsr_msg b)\<lparr>fsr_left := word_of_int v\<rparr>\<rparr>)
       (\<lambda>seg. convert (stoi seg) (\<lambda>v b.
     (let b1 = b\<lparr>fsr_msg := (fsr_msg b)\<lparr>fsr_right := word_of_int v\<rparr>\<rparr>
      in (Done, publish (OnFSR (fsr_msg b1)) b1))))))))"

definition parseGripper :: "'f env \<Rightarrow> 'f bridge \<Rightarrow> flow \<times> 'f bridge" where
  "parseGripper e b0 =
     CHECK_SEGMENT b0 (\<lambda>seg. convert (stol seg) (\<lambda>v b.
     CHECK_SEGMENT (b\<lparr>gripper_msg := (gripper_msg b)\<lparr>gripper_stamp := getDeviceTime b (word_of_int v)\<rparr>\<rparr>)
       (\<lambda>seg. convert (stoi seg) (\<lambda>v b.
     (let b1 = b\<lparr>gripper_msg := (gripper_msg b)\<lparr>gripper_position := v\<rparr>\<rparr>
      in (Done, publish (OnGripper (gripper_msg b1)) b1))))))"

definition parseLinear :: "'f env \<Rightarrow> 'f bridge \<Rightarrow> flow \<times> 'f bridge" where
  "parseLinear e b0 =
     CHECK_SEGMENT b0 (\<lambda>seg. convert (stol seg) (\<lambda>v b.
     CHECK_SEGMENT (b\<lparr>linear_msg := (linear_msg b)\<lparr>linear_stamp := getDeviceTime b (word_of_int v)\<rparr>\<rparr>)
       (\<lambda>seg. convert (stoi seg) (\<lambda>v b.
     CHECK_SEGMENT (b\<lparr>linear_msg := (linear_msg b)\<lparr>linear_position := word_of_int v\<rparr>\<rparr>)
       (\<lambda>seg. convert (stoi seg) (\<lambda>v b.
     CHECK_SEGMENT (b\<lparr>linear_msg := (linear_msg b)\<lparr>linear_has_error := (v \<noteq> 0)\<rparr>\<rparr>)
       (\<lambda>seg. convert (stoi seg) (\<lambda>v b.
     CHECK_SEGMENT (b\<lparr>linear_msg := (linear_msg b)\<lparr>linear_is_homed := (v \<noteq> 0)\<rparr>\<rparr>)
       (\<lambda>seg. convert (stoi seg) (\<lambda>v b.
     (let b1 = b\<lparr>linear_msg := (linear_msg b)\<lparr>linear_is_active := (v \<noteq> 0)\<rparr>\<rparr>
      in (Done, publish (OnLinear (linear_msg b1)) b1))))))))))))"

definition parseBattery :: "'f env \<Rightarrow> 'f bridge \<Rightarrow> flow \<times> 'f bridge" where
  "parseBattery e b0 =
     CHECK_SEGMENT b0 (\<lambda>seg. convert (stol seg) (\<lambda>v b.
     CHECK_SEGMENT (b\<lparr>battery_msg := (battery_msg b)\<lparr>battery_stamp := getDeviceTime b (word_of_int v)\<rparr>\<rparr>)
       (\<lambda>seg. convert (stof e seg) (\<lambda>v b.
     CHECK_SEGMENT (b\<lparr>battery_msg := (battery_msg b)\<lparr>battery_current := v\<rparr>\<rparr>)
       (\<lambda>seg b.
     CHECK_SEGMENT b
       (\<lambda>seg. convert (stof e seg) (\<lambda>v b.
     (let b1 = b\<lparr>battery_msg := (battery_msg b)\<lparr>battery_voltage := v\<rparr>\<rparr>
      in (Done, publish (OnBattery (battery_msg b1)) b1)))))))))"

definition parseTilter :: "'f env \<Rightarrow> 'f bridge \<Rightarrow> flow \<times> 'f bridge" where
  "parseTilter e b0 =
     CHECK_SEGMENT b0 (\<lambda>seg. convert (stol seg) (\<lambda>v b.
     CHECK_SEGMENT (b\<lparr>tilter_msg := (tilter_msg b)\<lparr>tilter_stamp := getDeviceTime b (word_of_int v)\<rparr>\<rparr>)
       (\<lambda>seg. convert (stoi seg) (\<lambda>v b.
     (let b1 = b\<lparr>tilter_msg := (tilter_msg b)\<lparr>tilter_position := v\<rparr>\<rparr>
      in (Done, publish (OnTilter (tilter_msg b1)) b1))))))"

definition parse_txrx :: "'f env \<Rightarrow> 'f bridge \<Rightarrow> flow \<times> 'f bridge" where
  "parse_txrx e b0 =
     CHECK_SEGMENT b0 (\<lambda>seg. convert (stol seg) (\<lambda>packet_num b.
     CHECK_SEGMENT b (\<lambda>seg. convert (stoi seg) (\<lambda>error_code b.
     (Done, if error_code \<noteq> 0 then logPacketErrorCode error_code (word_of_int packet_num) b
            else b)))))"

definition parse_state :: "'f env \<Rightarrow> 'f bridge \<Rightarrow> flow \<times> 'f bridge" where
  "parse_state e b0 =
     CHECK_SEGMENT b0 (\<lambda>seg. convert (stoi seg) (\<lambda>v b.
     CHECK_SEGMENT (b\<lparr>robotState := (robotState b)\<lparr>state_time_ms := word_of_int v\<rparr>\<rparr>)
       (\<lambda>seg. convert (stoi seg) (\<lambda>v b.
     CHECK_SEGMENT (b\<lparr>robotState := (robotState b)\<lparr>is_active := (v \<noteq> 0)\<rparr>\<rparr>)
       (\<lambda>seg. convert (stoi seg) (\<lambda>v b.
     CHECK_SEGMENT (b\<lparr>robotState := (robotState b)\<lparr>battery_ok := (v \<noteq> 0)\<rparr>\<rparr>)
       (\<lambda>seg. convert (stoi seg) (\<lambda>v b.
     CHECK_SEGMENT (b\<lparr>robotState := (robotState b)\<lparr>motors_active := (v \<noteq> 0)\<rparr>\<rparr>)
       (\<lambda>seg. convert (stof e seg) (\<lambda>v b.
     (Done, b\<lparr>robotState := (robotState b)\<lparr>loop_rate := v\<rparr>\<rparr>)))))))))))"

definition parse_ready :: "'f env \<Rightarrow> 'f bridge \<Rightarrow> flow \<times> 'f bridge" where
  "parse_ready e b0 =
     CHECK_SEGMENT b0 (\<lambda>seg. convert (stoi seg) (\<lambda>v b.
     CHECK_SEGMENT (b\<lparr>readyState := (readyState b)\<lparr>ready_time_ms := word_of_int v\<rparr>\<rparr>)
       (\<lambda>seg b.
     (Done, add_log (ReadySignal seg)
              (b\<lparr>readyState := (readyState b)\<lparr>robot_name := seg, is_ready := True\<rparr>\<rparr>)))))"

text \<open>
  The branches for \<^verbatim>\<open>txrx\<close>, \<^verbatim>\<open>state\<close> and \<^verbatim>\<open>ready\<close> are written in the body of
  \<^verbatim>\<open>processSerialPacket\<close> in the source; here each has a name. An unknown category does
  nothing.
\<close>

definition processSerialPacket :: "'f env \<Rightarrow> string \<Rightarrow> 'f bridge \<Rightarrow> flow \<times> 'f bridge" where
  "processSerialPacket e category b =
     (if category = ''txrx'' then parse_txrx e b
      else if category = ''state'' then parse_state e b
      else if category = ''enc'' then parseDrive e b
      else if category = ''bump'' then parseBumper e b
      else if category = ''fsr'' then parseFSR e b
      else if category = ''grip'' then parseGripper e b
      else if category = ''linear'' then parseLinear e b
      else if category = ''batt'' then parseBattery e b
      else if category = ''tilt'' then parseTilter e b
      else if category = ''ready'' then parse_ready e b
      else (Done, b))"

section \<open>Packet validator\<close>

text \<open>The checksum loops of \<^verbatim>\<open>readSerial\<close> and \<^verbatim>\<open>writeSerial\<close>: a \<^verbatim>\<open>uint8_t\<close> that adds each byte.\<close>

definition calc_checksum :: "string \<Rightarrow> uint8" where
  "calc_checksum s = fold (\<lambda>c acc. acc + of_char c) s 0"

text \<open>
  \<^verbatim>\<open>readSerial\<close> from the point where \<^verbatim>\<open>_serialBuffer\<close> holds the received frame (source
  lines 189 to 257), in two parts: \<open>readSerial_frame\<close> is the length check and the checksum
  (lines 189 to 220), \<open>readSerial_segments\<close> the packet number, the category and the
  dispatch (lines 222 to 257). The result is \<open>Inr\<close> of the boolean the source returns, or
  \<open>Inl\<close> of an exception that leaves \<^verbatim>\<open>readSerial\<close>: the conversion of the packet number
  stands outside every \<^verbatim>\<open>try\<close>.
\<close>

definition readSerial_segments :: "'f env \<Rightarrow> 'f bridge \<Rightarrow> (exn + bool) \<times> 'f bridge" where
  "readSerial_segments e b1 =
     (case getNextSegment b1 of
        (False, b2) \<Rightarrow>
          (Inr False, (add_log PacketNumSegmentMissing b2)
                        \<lparr>readPacketNum := readPacketNum b2 + 1\<rparr>)
      | (True, b2) \<Rightarrow>
         (case stoi (currentBufferSegment b2) of
            Inl x \<Rightarrow> (Inl x, b2)
          | Inr n \<Rightarrow>
             (let recv_packet_num = (word_of_int n :: uint32);
                  b3 = (if ucast recv_packet_num \<noteq> readPacketNum b2
                        then (add_log (PacketNumMismatch recv_packet_num (readPacketNum b2)) b2)
                               \<lparr>readPacketNum := ucast recv_packet_num\<rparr>
                        else b2)
              in (case getNextSegment b3 of
                    (False, b4) \<Rightarrow>
                      (Inr False, (add_log CategorySegmentMissing b4)
                                    \<lparr>readPacketNum := readPacketNum b4 + 1\<rparr>)
                  | (True, b4) \<Rightarrow>
                     (let category = currentBufferSegment b4;
                          b5 = b4\<lparr>serialBuffer :=
                                    take (length (serialBuffer b4) - 2) (serialBuffer b4)\<rparr>
                      in (case processSerialPacket e category b5 of
                            (Raised x, b6) \<Rightarrow> (Inr False, add_log (DispatchException x) b6)
                          | (Done, b6) \<Rightarrow>
                              (Inr True, b6\<lparr>readPacketNum := readPacketNum b6 + 1\<rparr>)
                          | (Returned, b6) \<Rightarrow>
                              (Inr True, b6\<lparr>readPacketNum := readPacketNum b6 + 1\<rparr>)))))))"

definition readSerial_frame :: "'f env \<Rightarrow> 'f bridge \<Rightarrow> (exn + bool) \<times> 'f bridge" where
  "readSerial_frame e b =
     (let buf = serialBuffer b in
      if length buf < 5
      then (Inr False, (add_log InvalidLength b)\<lparr>readPacketNum := readPacketNum b + 1\<rparr>)
      else
        (let b1 = b\<lparr>serialBufferIndex := 0\<rparr>;
             calc = calc_checksum (take (length buf - 2) buf)
         in (case stoul_hex (drop (length buf - 2) buf) of
               Inl x \<Rightarrow> (Inr False, add_log (ChecksumParseFailed x) b1)
             | Inr parsed \<Rightarrow>
                (let recv_checksum = (ucast parsed :: uint16) in
                 if unat calc \<noteq> unat recv_checksum
                 then (Inr False, (add_log (ChecksumFailed calc recv_checksum) b1)
                                    \<lparr>readPacketNum := readPacketNum b1 + 1\<rparr>)
                 else readSerial_segments e b1))))"

section \<open>Frame encoder\<close>

text \<open>
  One argument of \<^verbatim>\<open>writeSerial\<close>: a character of the format string with the variadic
  argument it reads. \<open>Signed\<close> is \<^verbatim>\<open>d\<close> (an \<^verbatim>\<open>int32_t\<close>), \<open>Unsigned\<close> is \<^verbatim>\<open>u\<close> (a
  \<^verbatim>\<open>uint32_t\<close>), \<open>Str\<close> is \<^verbatim>\<open>s\<close> (a \<^verbatim>\<open>char*\<close>, read up to its first NUL), \<open>Float\<close> is \<^verbatim>\<open>f\<close>
  (a double); \<open>Invalid\<close> is any other character, for which no argument is read.
\<close>

datatype 'f arg = Signed uint32 | Unsigned uint32 | Str string | Float 'f | Invalid char

definition format_arg :: "'f env \<Rightarrow> 'f arg \<Rightarrow> string" where
  "format_arg e a =
     (case a of
        Signed i \<Rightarrow> dec_of_int (sint i)
      | Unsigned u \<Rightarrow> dec_of_nat (unat u)
      | Str s \<Rightarrow> takeWhile (\<lambda>c. c \<noteq> NUL) s
      | Float f \<Rightarrow> fixed4 e f
      | Invalid c \<Rightarrow> [])"

text \<open>The \<^verbatim>\<open>while (*formats != '\0')\<close> loop: the stream so far, and the bridge for the log.\<close>

fun write_args :: "'f env \<Rightarrow> 'f arg list \<Rightarrow> string \<Rightarrow> 'f bridge \<Rightarrow> string \<times> 'f bridge" where
  "write_args e [] sstream b = (sstream, b)"
| "write_args e (a # rest) sstream b =
     write_args e rest (sstream @ [TAB] @ format_arg e a)
       (case a of Invalid c \<Rightarrow> add_log (InvalidFormat c) b | _ \<Rightarrow> b)"

text \<open>
  \<^verbatim>\<open>writeSerial\<close> hands the packet to the port, in \<open>tx\<close>. The call of \<^verbatim>\<open>_serialRef.write\<close>
  stands in no \<^verbatim>\<open>try\<close>: when it throws, the exception leaves \<^verbatim>\<open>writeSerial\<close> before
  \<^verbatim>\<open>_writePacketNum++\<close> (which bytes had been sent by then is not modelled). When it returns,
  the bytes it reports as sent are on the line, in \<open>wire\<close>; the source drops the count. The
  pause of half a millisecond after the write is not modelled.
\<close>

definition writeSerial ::
  "'f env \<Rightarrow> string \<Rightarrow> 'f arg list \<Rightarrow> 'f bridge \<Rightarrow> (exn + unit) \<times> 'f bridge" where
  "writeSerial e name args b =
     (case write_args e args
             ([PACKET_START_0, PACKET_START_1] @ dec_of_nat (unat (writePacketNum b)) @ [TAB] @ name)
             b of
        (sstream, b1) \<Rightarrow>
          (let calc = calc_checksum (drop 2 sstream);
               packet = (if calc < 0x10 then sstream @ ''0'' else sstream)
                          @ hex_of_nat (unat calc) @ [PACKET_STOP];
               b2 = b1\<lparr>tx := tx b1 @ [packet]\<rparr>
           in case written e (length (tx b1)) packet of
                Inl x \<Rightarrow> (Inl x, b2)
              | Inr count \<Rightarrow>
                  (Inr (), b2\<lparr>wire := wire b2 @ take count packet,
                              writePacketNum := writePacketNum b2 + 1\<rparr>)))"

definition setActive :: "'f env \<Rightarrow> bool \<Rightarrow> 'f bridge \<Rightarrow> (exn + unit) \<times> 'f bridge" where
  "setActive e state b =
     (if state then writeSerial e ''<>'' [Signed 1] b else writeSerial e ''<>'' [Signed 0] b)"

definition setReporting :: "'f env \<Rightarrow> bool \<Rightarrow> 'f bridge \<Rightarrow> (exn + unit) \<times> 'f bridge" where
  "setReporting e state b =
     (if state then writeSerial e ''[]'' [Signed 1] b else writeSerial e ''[]'' [Signed 0] b)"

section \<open>Frame receiver\<close>

text \<open>Durations are in nanoseconds: the window of the start search is 0.05 s.\<close>

definition wait_timeout :: int where
  "wait_timeout = 50000000"

text \<open>
  The \<^verbatim>\<open>while (true)\<close> of \<^verbatim>\<open>waitForPacketStart\<close>. \<open>c2\<close> and \<open>msg_buffer\<close> are its locals;
  \<open>c2\<close> keeps the byte of the last failed start pair. The result is \<open>None\<close> when the loop
  never ends.
\<close>

partial_function (option) waitForPacketStart_loop ::
  "'f env \<Rightarrow> int \<Rightarrow> char \<Rightarrow> string \<Rightarrow> 'f bridge \<Rightarrow> (bool \<times> 'f bridge) option" where
  "waitForPacketStart_loop e wait_time c2 msg_buffer b =
     (case now e b of
        (t, b1) \<Rightarrow>
          if t - wait_time > wait_timeout then Some (False, b1)
          else
            (case rx b1 of
               c1 # n # r \<Rightarrow>
                 if c1 = PACKET_START_0
                 then (if n = PACKET_START_1 then Some (True, b1\<lparr>rx := r\<rparr>)
                       else waitForPacketStart_loop e wait_time n msg_buffer (b1\<lparr>rx := r\<rparr>))
                 else if c1 = PACKET_STOP \<or> c2 = PACKET_STOP
                 then Some (False, add_log (DeviceMessage msg_buffer) (b1\<lparr>rx := n # r\<rparr>))
                 else waitForPacketStart_loop e wait_time c2 (msg_buffer @ [c1]) (b1\<lparr>rx := n # r\<rparr>)
             | _ \<Rightarrow> waitForPacketStart_loop e wait_time c2 msg_buffer b1))"

definition waitForPacketStart :: "'f env \<Rightarrow> 'f bridge \<Rightarrow> (bool \<times> 'f bridge) option" where
  "waitForPacketStart e b =
     (case now e b of
        (wait_time, b1) \<Rightarrow> waitForPacketStart_loop e wait_time (indeterminate e) [] b1)"

text \<open>
  The \<^verbatim>\<open>while (true)\<close> of \<^verbatim>\<open>readSerial\<close> that collects the frame in \<^verbatim>\<open>_recvCharBuffer\<close>, an
  array of \<open>0xfff\<close> chars; \<open>received\<close> is its content up to \<^verbatim>\<open>_recvCharIndex\<close>. It asks the
  port for a byte again and again, with no clock. A write past the end of the array is
  undefined in C++; the model stops there with \<open>BufferOverrun\<close>.
\<close>

partial_function (option) readSerial_receive ::
  "string \<Rightarrow> 'f bridge \<Rightarrow> ((exn + string) \<times> 'f bridge) option" where
  "readSerial_receive received b =
     (case rx b of
        [] \<Rightarrow> readSerial_receive received b
      | c # r \<Rightarrow>
          if c = PACKET_STOP then Some (Inr received, b\<lparr>rx := r\<rparr>)
          else if 0xfff \<le> length received then Some (Inl BufferOverrun, b\<lparr>rx := r\<rparr>)
          else readSerial_receive (received @ [c]) (b\<lparr>rx := r\<rparr>))"

text \<open>
  \<^verbatim>\<open>readSerial\<close>: the start search, the collection of the frame, the terminating NUL and
  the conversion of the array to \<^verbatim>\<open>_serialBuffer\<close> (which ends at the first NUL), then the
  validation and dispatch above.
\<close>

definition readSerial :: "'f env \<Rightarrow> 'f bridge \<Rightarrow> ((exn + bool) \<times> 'f bridge) option" where
  "readSerial e b =
     (case waitForPacketStart e b of
        None \<Rightarrow> None
      | Some (False, b1) \<Rightarrow> Some (Inr False, b1)
      | Some (True, b1) \<Rightarrow>
         (case readSerial_receive [] b1 of
            None \<Rightarrow> None
          | Some (Inl x, b2) \<Rightarrow> Some (Inl x, b2)
          | Some (Inr received, b2) \<Rightarrow>
              if 0xfff \<le> length received then Some (Inl BufferOverrun, b2)
              else Some (readSerial_frame e
                           (b2\<lparr>serialBuffer := takeWhile (\<lambda>c. c \<noteq> NUL) received\<rparr>))))"

section \<open>Readiness handshake and the driving loop\<close>

definition general_timeout :: int where
  "general_timeout = 5000000000"

definition write_timeout :: int where
  "write_timeout = 1000000000"

text \<open>
  The \<^verbatim>\<open>while (!readyState->is_ready)\<close> of \<^verbatim>\<open>checkReady\<close>. Nothing in \<^verbatim>\<open>checkReady\<close> catches: an
  exception of \<^verbatim>\<open>writeSerial\<close> or \<^verbatim>\<open>readSerial\<close> leaves it.
\<close>

partial_function (option) checkReady_loop ::
  "'f env \<Rightarrow> int \<Rightarrow> int \<Rightarrow> 'f bridge \<Rightarrow> ((exn + unit) \<times> 'f bridge) option" where
  "checkReady_loop e begin_time write_time b =
     (if is_ready (readyState b) then Some (Inr (), b)
      else
        (case ok e b of
           (running, b1) \<Rightarrow>
             if \<not> running then Some (Inr (), b1)
             else
               (case now e b1 of
                  (t1, b2) \<Rightarrow>
                    if t1 - begin_time > general_timeout then Some (Inl ReadyTimeoutException, b2)
                    else
                      (case now e b2 of
                         (t2, b3) \<Rightarrow>
                           (case (if t2 - write_time > write_timeout
                                  then (case writeSerial e ''?'' [Str ''dodobot'']
                                               (add_log WritingSignalAgain b3) of
                                          (Inl x, bw) \<Rightarrow> (Inl x, bw)
                                        | (Inr _, bw) \<Rightarrow>
                                            (case now e bw of (t3, bn) \<Rightarrow> (Inr t3, bn)))
                                  else (Inr write_time, b3)) of
                              (Inl x, b4) \<Rightarrow> Some (Inl x, b4)
                            | (Inr write_time', b4) \<Rightarrow>
                                if 2 < length (rx b4)
                                then (case readSerial e b4 of
                                        None \<Rightarrow> None
                                      | Some (Inl x, b5) \<Rightarrow> Some (Inl x, b5)
                                      | Some (Inr _, b5) \<Rightarrow>
                                          checkReady_loop e begin_time write_time' b5)
                                else checkReady_loop e begin_time write_time' b4)))))"

definition checkReady :: "'f env \<Rightarrow> 'f bridge \<Rightarrow> ((exn + unit) \<times> 'f bridge) option" where
  "checkReady e b =
     (case now e b of
        (begin_time, b1) \<Rightarrow>
          (case now e b1 of
             (write_time, b2) \<Rightarrow>
               (case writeSerial e ''?'' [Str ''dodobot''] b2 of
                  (Inl x, bw) \<Rightarrow> Some (Inl x, bw)
                | (Inr _, bw) \<Rightarrow>
                    (case checkReady_loop e begin_time write_time bw of
                       None \<Rightarrow> None
                     | Some (Inl x, b3) \<Rightarrow> Some (Inl x, b3)
                     | Some (Inr _, b3) \<Rightarrow>
                         if is_ready (readyState b3)
                         then Some (Inr (), add_log (DeviceReady (robot_name (readyState b3)))
                                              (setStartTime e (ready_time_ms (readyState b3)) b3))
                         else Some (Inr (), add_log NoReadySignal b3)))))"

text \<open>
  \<^verbatim>\<open>setup\<close> after \<^verbatim>\<open>configure\<close> has opened the port (the name \<open>setup\<close> is reserved in
  Isabelle).
\<close>

definition setup_bridge :: "'f env \<Rightarrow> 'f bridge \<Rightarrow> ((exn + unit) \<times> 'f bridge) option" where
  "setup_bridge e b =
     (case checkReady e b of
        None \<Rightarrow> None
      | Some (Inl x, b1) \<Rightarrow> Some (Inl x, b1)
      | Some (Inr _, b1) \<Rightarrow>
          (case setActive e True b1 of
             (Inl x, b2) \<Rightarrow> Some (Inl x, b2)
           | (Inr _, b2) \<Rightarrow> Some (setReporting e True b2)))"

text \<open>The \<^verbatim>\<open>while (_serialRef.available())\<close> of \<^verbatim>\<open>loop\<close>; nothing in \<^verbatim>\<open>loop\<close> catches.\<close>

partial_function (option) loop_drain ::
  "'f env \<Rightarrow> 'f bridge \<Rightarrow> ((exn + unit) \<times> 'f bridge) option" where
  "loop_drain e b =
     (if rx b = [] then Some (Inr (), b)
      else (case readSerial e b of
              None \<Rightarrow> None
            | Some (Inl x, b1) \<Rightarrow> Some (Inl x, b1)
            | Some (Inr _, b1) \<Rightarrow> loop_drain e b1))"

definition loop :: "'f env \<Rightarrow> 'f bridge \<Rightarrow> ((exn + unit) \<times> 'f bridge) option" where
  "loop e b = (if 2 < length (rx b) then loop_drain e b else Some (Inr (), b))"

text \<open>
  The \<^verbatim>\<open>while (ros::ok())\<close> of \<^verbatim>\<open>run\<close>, with the exit code it ends with. An exception of
  \<^verbatim>\<open>loop\<close> is caught here: it sets the exit code to 1 and breaks out of the loop. The
  subscriber callbacks that \<^verbatim>\<open>ros::spinOnce\<close> may run and the sleep of the rate are not
  modelled.
\<close>

partial_function (option) run_loop :: "'f env \<Rightarrow> 'f bridge \<Rightarrow> (int \<times> 'f bridge) option" where
  "run_loop e b =
     (case ok e b of
        (running, b1) \<Rightarrow>
          if \<not> running then Some (0, b1)
          else (case loop e b1 of
                  None \<Rightarrow> None
                | Some (Inl x, b2) \<Rightarrow> Some (1, add_log (MainLoopException x) b2)
                | Some (Inr _, b2) \<Rightarrow> run_loop e b2))"

text \<open>\<^verbatim>\<open>run\<close>: an exception of \<^verbatim>\<open>setup\<close> leaves it; otherwise the exit code of the loop.\<close>

definition run :: "'f env \<Rightarrow> 'f bridge \<Rightarrow> ((exn + int) \<times> 'f bridge) option" where
  "run e b =
     (case setup_bridge e b of
        None \<Rightarrow> None
      | Some (Inl x, b1) \<Rightarrow> Some (Inl x, b1)
      | Some (Inr _, b1) \<Rightarrow>
          (case run_loop e b1 of
             None \<Rightarrow> None
           | Some (code, b2) \<Rightarrow> Some (Inr code, b2)))"

section \<open>Vocabulary for the statements\<close>


text \<open>The received bytes hold the two start bytes next to each other somewhere.\<close>

fun has_start_pair :: "string \<Rightarrow> bool" where
  "has_start_pair (x # y # r) =
     ((x = PACKET_START_0 \<and> y = PACKET_START_1) \<or> has_start_pair (y # r))"
| "has_start_pair _ = False"

text \<open>The sending side of the bridge: the packets written, the bytes sent, the write counter.\<close>

definition outbound :: "'f bridge \<Rightarrow> string list \<times> string \<times> uint64" where
  "outbound b = (tx b, wire b, writePacketNum b)"

text \<open>
  The frame the spec describes for a write counter, a command name and its arguments
  (section 4.7 and the wire format of section 6), written from the spec's words to compare
  \<^verbatim>\<open>writeSerial\<close> with: the body is the counter, a tab, the name and a tab before each
  argument text; the frame is the start bytes, the body, the byte sum of the body modulo 256
  as two hex digits, and the stop byte.
\<close>

definition frame_body :: "'f env \<Rightarrow> uint64 \<Rightarrow> string \<Rightarrow> 'f arg list \<Rightarrow> string" where
  "frame_body e n name args =
     dec_of_nat (unat n) @ [TAB] @ name @ concat (map (\<lambda>a. TAB # format_arg e a) args)"

definition frame_of :: "'f env \<Rightarrow> uint64 \<Rightarrow> string \<Rightarrow> 'f arg list \<Rightarrow> string" where
  "frame_of e n name args =
     [PACKET_START_0, PACKET_START_1] @ frame_body e n name args
       @ [digit_char (sum_list (map of_char (frame_body e n name args)) mod 256 div 16),
          digit_char (sum_list (map of_char (frame_body e n name args)) mod 256 mod 16),
          PACKET_STOP]"

text \<open>
  The decimal numeral of a number, in the spec's words, to compare the texts of
  \<^verbatim>\<open>writeSerial\<close> with: digits only, no leading zero but for the numeral \<^verbatim>\<open>0\<close>, and the value
  those digits spell.
\<close>

definition decimal :: "nat \<Rightarrow> string \<Rightarrow> bool" where
  "decimal n s =
     (s \<noteq> [] \<and> list_all (\<lambda>c. c \<in> set ''0123456789'') s \<and>
      (hd s = CHR ''0'' \<longrightarrow> s = ''0'') \<and>
      foldl (\<lambda>v c. 10 * v + (of_char c - 48)) 0 s = n)"

text \<open>
  The formatted text of an argument, by its tag (spec, section 4.7): a signed or unsigned
  integer as its decimal numeral, with a minus sign before the magnitude of a negative one; a
  string as it is, up to the NUL that ends it; a float as \<open>fixed4\<close> prints it; nothing for a
  format character that is none of these.
\<close>

definition arg_text :: "'f env \<Rightarrow> 'f arg \<Rightarrow> string \<Rightarrow> bool" where
  "arg_text e a t =
     (case a of
        Signed i \<Rightarrow>
          (if sint i < 0 then t \<noteq> [] \<and> hd t = CHR ''-'' \<and> decimal (nat (- sint i)) (tl t)
           else decimal (nat (sint i)) t)
      | Unsigned u \<Rightarrow> decimal (unat u) t
      | Str str \<Rightarrow> t = takeWhile (\<lambda>c. c \<noteq> NUL) str
      | Float f \<Rightarrow> t = fixed4 e f
      | Invalid c \<Rightarrow> t = [])"

text \<open>
  The frames of \<^verbatim>\<open>count\<close> successive writes of \<^verbatim>\<open>writeSerial("?", "s", "dodobot")\<close>, the first
  with the write counter \<^verbatim>\<open>n\<close>; and the bridges that differ on the sending side by such a run.
\<close>

definition probes :: "'f env \<Rightarrow> uint64 \<Rightarrow> nat \<Rightarrow> string list" where
  "probes e n count =
     map (\<lambda>i. frame_of e (n + word_of_nat i) ''?'' [Str ''dodobot'']) [0..<count]"

definition probe_run :: "'f env \<Rightarrow> 'f bridge \<Rightarrow> 'f bridge \<Rightarrow> bool" where
  "probe_run e b b' =
     (\<exists>n. tx b' = tx b @ probes e (writePacketNum b) n \<and>
          writePacketNum b' = writePacketNum b + word_of_nat n)"

section \<open>Evaluation on concrete inputs\<close>

text \<open>The definitions that the examples below unfold.\<close>

lemmas eval_defs =
  readSerial_frame_def readSerial_segments_def DodobotSerialBridge_def sample_env_def
  TAB_def NUL_def PACKET_START_0_def PACKET_START_1_def PACKET_STOP_def
  calc_checksum_def stoul_hex_def strto_def isspace_def strip_0x_def digit_of_def
  signed_value_def getNextSegment_def string_find_def stoi_def stol_def add_log_def Let_def
  processSerialPacket_def parse_ready_def parse_state_def parse_txrx_def CHECK_SEGMENT_def
  convert_def dec_of_nat.simps hex_of_nat.simps dec_of_int_def digit_char_def format_arg_def
  writeSerial_def readSerial_def waitForPacketStart_def waitForPacketStart_loop.simps
  readSerial_receive.simps now_def ok_def wait_timeout_def loop_def loop_drain.simps
  run_loop.simps

section \<open>Packet validator: the checksum\<close>

lemma of_char_word8: "unat (of_char c :: 8 word) = of_char c"
proof -
  have "(of_char c :: 8 word) = of_nat (of_char c)"
    by (simp add: of_char_def)
  then show ?thesis
    by (simp add: unat_of_nat del: of_nat_of_char)
qed

lemma calc_fold:
  "unat (fold (\<lambda>c acc. acc + of_char c) s (a :: 8 word)) =
     (unat a + sum_list (map of_char s)) mod 256"
proof (induction s arbitrary: a)
  case Nil
  have "unat a < 256"
    using unsigned_less [of a, where 'a = nat] by simp
  then show ?case by simp
next
  case (Cons c s)
  show ?case
    by (simp add: Cons.IH unat_word_ariths of_char_word8 mod_simps ac_simps)
qed

lemma calc_checksum_sum: "unat (calc_checksum s) = sum_list (map of_char s) mod 256"
  by (simp add: calc_checksum_def calc_fold)

lemma digit_of_not_space:
  "digit_of base c = Some d \<Longrightarrow> \<not> isspace c \<and> c \<noteq> CHR ''-'' \<and> c \<noteq> CHR ''+''"
  by (auto simp: digit_of_def isspace_def Let_def split: if_splits)

lemma digit_of_less: "digit_of base c = Some d \<Longrightarrow> d < base"
  by (auto simp: digit_of_def Let_def split: if_splits option.splits)

lemma stoul_hex_two_digits:
  assumes "digit_of 16 h1 = Some d1" "digit_of 16 h0 = Some d0"
  shows "stoul_hex [h1, h0] = Inr (word_of_nat (16 * d1 + d0))"
proof -
  have a: "\<not> isspace h1" "h1 \<noteq> CHR ''-''" "h1 \<noteq> CHR ''+''"
    using digit_of_not_space [OF assms(1)] by auto
  have "strto 16 [h1, h0] = Some (False, d1 * 16 + d0)"
    using a assms by (simp add: strto_def strip_0x_def)
  moreover have "d1 < 16" "d0 < 16"
    using assms digit_of_less by auto
  ultimately show ?thesis
    by (simp add: stoul_hex_def signed_value_def mult.commute)
qed

text \<open>
  Claim C1. Write \<open>body\<close> for the payload without its last two characters and \<open>suffix\<close> for
  those two. The \<^verbatim>\<open>uint8_t\<close> the validator accumulates is the sum of the bytes of \<open>body\<close>
  modulo 256. \<^verbatim>\<open>readSerial\<close> returns true only if \<open>suffix\<close> parses (as \<^verbatim>\<open>stoul\<close> in base 16
  reads it) to that value; and for every payload that reaches the checksum (five characters
  or more) whose suffix parses to a different value, it returns false with the log entry
  \<^verbatim>\<open>Checksum failed!\<close>, the read counter advanced by one and nothing else changed but the
  cursor. When both characters of \<open>suffix\<close> are hex digits, the parsed value is the byte
  they spell.
\<close>

theorem checksum_gate:
  fixes e :: "'f env" and b :: "'f bridge"
  defines "body \<equiv> take (length (serialBuffer b) - 2) (serialBuffer b)"
      and "suffix \<equiv> drop (length (serialBuffer b) - 2) (serialBuffer b)"
  shows "unat (calc_checksum body) = sum_list (map of_char body) mod 256 \<and>
         (fst (readSerial_frame e b) = Inr True \<longrightarrow>
            (\<exists>v. stoul_hex suffix = Inr v \<and>
                 unat (ucast v :: uint16) = sum_list (map of_char body) mod 256)) \<and>
         (\<forall>v. 5 \<le> length (serialBuffer b) \<and> stoul_hex suffix = Inr v \<and>
              unat (ucast v :: uint16) \<noteq> sum_list (map of_char body) mod 256 \<longrightarrow>
              readSerial_frame e b =
                (Inr False,
                 b\<lparr>serialBufferIndex := 0,
                   logs := logs b @ [ChecksumFailed (calc_checksum body) (ucast v)],
                   readPacketNum := readPacketNum b + 1\<rparr>)) \<and>
         (\<forall>h1 h0 d1 d0.
            suffix = [h1, h0] \<and> digit_of 16 h1 = Some d1 \<and> digit_of 16 h0 = Some d0 \<longrightarrow>
            stoul_hex suffix = Inr (word_of_nat (16 * d1 + d0)))"
  unfolding body_def suffix_def
  by (auto simp: calc_checksum_sum readSerial_frame_def Let_def add_log_def
        stoul_hex_two_digits split: sum.splits)

text \<open>
  The theorem at two payloads: the \<^verbatim>\<open>ready\<close> frame of the spec's scenario with its checksum
  \<^verbatim>\<open>cc\<close>, which is accepted, and the same frame ending in \<^verbatim>\<open>c0\<close>, which is refused.
\<close>

theorem checksum_gate_witness:
  "fst (readSerial_frame sample_env
         ((DodobotSerialBridge sample_env)
            \<lparr>serialBuffer := ''0'' @ [TAB] @ ''ready'' @ [TAB] @ ''1500'' @ [TAB] @ ''dodocc''\<rparr>))
     = Inr True \<and>
   stoul_hex ''cc'' = Inr 204 \<and>
   unat (ucast (204 :: uint64) :: uint16) =
     sum_list (map of_char (''0'' @ [TAB] @ ''ready'' @ [TAB] @ ''1500'' @ [TAB] @ ''dodo''))
       mod 256 \<and>
   5 \<le> length (''0'' @ [TAB] @ ''ready'' @ [TAB] @ ''1500'' @ [TAB] @ ''dodoc0'') \<and>
   stoul_hex ''c0'' = Inr 192 \<and>
   fst (readSerial_frame sample_env
         ((DodobotSerialBridge sample_env)
            \<lparr>serialBuffer := ''0'' @ [TAB] @ ''ready'' @ [TAB] @ ''1500'' @ [TAB] @ ''dodoc0''\<rparr>))
     = Inr False \<and>
   readPacketNum (snd (readSerial_frame sample_env
         ((DodobotSerialBridge sample_env)
            \<lparr>serialBuffer := ''0'' @ [TAB] @ ''ready'' @ [TAB] @ ''1500'' @ [TAB] @ ''dodoc0''\<rparr>)))
     = 1"
  using checksum_gate [of "(DodobotSerialBridge sample_env)
            \<lparr>serialBuffer := ''0'' @ [TAB] @ ''ready'' @ [TAB] @ ''1500'' @ [TAB] @ ''dodocc''\<rparr>"
          sample_env]
        checksum_gate [of "(DodobotSerialBridge sample_env)
            \<lparr>serialBuffer := ''0'' @ [TAB] @ ''ready'' @ [TAB] @ ''1500'' @ [TAB] @ ''dodoc0''\<rparr>"
          sample_env]
  by (simp add: eval_defs)

section \<open>Packet validator: the read counter\<close>

text \<open>
  Claim C2. A frame whose dispatch throws: packet number 0 as expected, category \<^verbatim>\<open>state\<close>,
  and a first field \<^verbatim>\<open>x\<close> that \<^verbatim>\<open>stoi\<close> refuses. \<^verbatim>\<open>readSerial\<close> catches the exception, logs it
  and returns false from inside the handler, before the increment at its end: the read
  counter is still 0 after the attempt.
\<close>

theorem dispatch_exception_keeps_counter:
  "map_option (\<lambda>(r, b). (r, readPacketNum b, logs b))
     (readSerial sample_env
        ((DodobotSerialBridge sample_env)
           \<lparr>rx := [PACKET_START_0, PACKET_START_1] @ ''0'' @ [TAB] @ ''state'' @ [TAB] @ ''xdb''
                    @ [PACKET_STOP]\<rparr>))
   = Some (Inr False, 0, [DispatchException InvalidArgument])"
  by (simp add: eval_defs)

text \<open>
  Claim C3. The same frame with packet number 5 while 0 is expected: the mismatch is logged
  and the counter is set to 5; the dispatch then throws, and the counter stays at 5 instead
  of moving on to 6.
\<close>

theorem desync_then_dispatch_exception:
  "map_option (\<lambda>(r, b). (r, readPacketNum b, logs b))
     (readSerial sample_env
        ((DodobotSerialBridge sample_env)
           \<lparr>rx := [PACKET_START_0, PACKET_START_1] @ ''5'' @ [TAB] @ ''state'' @ [TAB] @ ''xe0''
                    @ [PACKET_STOP]\<rparr>))
   = Some (Inr False, 5, [PacketNumMismatch 5 0, DispatchException InvalidArgument])"
  by (simp add: eval_defs)

text \<open>
  Claim C4. A frame with a valid checksum whose first segment is the letter \<^verbatim>\<open>a\<close>, followed
  on the line by a good \<^verbatim>\<open>ready\<close> frame. The conversion of the packet number throws outside
  every \<^verbatim>\<open>try\<close> of \<^verbatim>\<open>readSerial\<close>; the exception passes through \<^verbatim>\<open>loop\<close> and ends the
  driving loop of \<^verbatim>\<open>run\<close> with exit code 1. Nothing is logged for the frame itself, the read
  counter is unchanged and the second frame is never read.
\<close>

theorem non_numeric_sequence_ends_run:
  "map_option (\<lambda>(code, b). (code, readPacketNum b, logs b, rx b))
     (run_loop sample_env
        ((DodobotSerialBridge sample_env)
           \<lparr>rx := [PACKET_START_0, PACKET_START_1] @ ''a'' @ [TAB] @ ''bcc'' @ [PACKET_STOP]
                    @ [PACKET_START_0, PACKET_START_1] @ ''0'' @ [TAB] @ ''ready'' @ [TAB]
                    @ ''1500'' @ [TAB] @ ''dodocc'' @ [PACKET_STOP]\<rparr>))
   = Some (1, 0, [MainLoopException InvalidArgument],
           [PACKET_START_0, PACKET_START_1] @ ''0'' @ [TAB] @ ''ready'' @ [TAB]
             @ ''1500'' @ [TAB] @ ''dodocc'' @ [PACKET_STOP])"
  by (simp add: eval_defs)

section \<open>Frame encoder\<close>

lemma write_args_eq:
  "write_args e args sstream b =
     (sstream @ concat (map (\<lambda>a. TAB # format_arg e a) args),
      b\<lparr>logs := logs b
                 @ concat (map (\<lambda>a. case a of Invalid c \<Rightarrow> [InvalidFormat c] | _ \<Rightarrow> []) args)\<rparr>)"
proof (induction args arbitrary: sstream b)
  case Nil
  show ?case by simp
next
  case (Cons a args)
  show ?case
    by (cases a) (simp_all add: Cons.IH add_log_def)
qed

lemma hex_two_digits:
  assumes "n < 256"
  shows "(if n < 16 then ''0'' else []) @ hex_of_nat n
           = [digit_char (n div 16), digit_char (n mod 16)]"
proof (cases "n < 16")
  case True
  then show ?thesis
    by (simp add: hex_of_nat.simps [of n] digit_char_def)
next
  case False
  have "n div 16 < 16"
    using assms by simp
  then have "hex_of_nat (n div 16) = [digit_char (n div 16)]"
    by (simp add: hex_of_nat.simps [of "n div 16"])
  then show ?thesis
    using False by (simp add: hex_of_nat.simps [of n])
qed

lemma writeSerial_layout:
  fixes e :: "'f env" and b :: "'f bridge" and name :: string and args :: "'f arg list"
  defines "packet \<equiv> frame_of e (writePacketNum b) name args"
  defines "handed \<equiv> b\<lparr>logs := logs b
                      @ concat (map (\<lambda>a. case a of Invalid c \<Rightarrow> [InvalidFormat c] | _ \<Rightarrow> [])
                                  args),
                          tx := tx b @ [packet]\<rparr>"
  shows "writeSerial e name args b =
           (case written e (length (tx b)) packet of
              Inl x \<Rightarrow> (Inl x, handed)
            | Inr count \<Rightarrow>
                (Inr (), handed\<lparr>wire := wire b @ take count packet,
                                writePacketNum := writePacketNum b + 1\<rparr>))"
proof -
  define body where "body = frame_body e (writePacketNum b) name args"
  define checksum :: nat where "checksum = sum_list (map of_char body) mod 256"
  have packet_eq: "packet = [PACKET_START_0, PACKET_START_1] @ body
                     @ [digit_char (checksum div 16), digit_char (checksum mod 16), PACKET_STOP]"
    by (simp add: packet_def frame_of_def body_def checksum_def)
  have body_eq: "body = dec_of_nat (unat (writePacketNum b)) @ [TAB] @ name
                     @ concat (map (\<lambda>a. TAB # format_arg e a) args)"
    by (simp add: body_def frame_body_def)
  have c: "unat (calc_checksum body) = checksum"
    by (simp add: checksum_def calc_checksum_sum)
  have lt: "checksum < 256"
    by (simp add: checksum_def)
  have less: "(calc_checksum body < 0x10) = (checksum < 16)"
    using c by (simp add: word_less_nat_alt)
  have tail: "(if checksum < 16 then ''0'' else []) @ hex_of_nat checksum
                = [digit_char (checksum div 16), digit_char (checksum mod 16)]"
    by (rule hex_two_digits [OF lt])
  have p: "(if calc_checksum body < 0x10 then ([PACKET_START_0, PACKET_START_1] @ body) @ ''0''
            else [PACKET_START_0, PACKET_START_1] @ body)
             @ hex_of_nat (unat (calc_checksum body)) @ [PACKET_STOP] = packet"
    using tail unfolding less c packet_eq by (simp split: if_splits)
  have w: "writeSerial e name args b =
             (let packet' = (if calc_checksum body < 0x10
                             then ([PACKET_START_0, PACKET_START_1] @ body) @ ''0''
                             else [PACKET_START_0, PACKET_START_1] @ body)
                              @ hex_of_nat (unat (calc_checksum body)) @ [PACKET_STOP];
                  handed' = b\<lparr>logs := logs b
                        @ concat (map (\<lambda>a. case a of Invalid c \<Rightarrow> [InvalidFormat c] | _ \<Rightarrow> [])
                                    args),
                              tx := tx b @ [packet']\<rparr>
              in case written e (length (tx b)) packet' of
                   Inl x \<Rightarrow> (Inl x, handed')
                 | Inr count \<Rightarrow>
                     (Inr (), handed'\<lparr>wire := wire b @ take count packet',
                                      writePacketNum := writePacketNum b + 1\<rparr>))"
    unfolding writeSerial_def write_args_eq
    by (simp add: body_eq Let_def split: sum.split)
  show ?thesis
    unfolding w p by (simp add: Let_def handed_def split: sum.split)
qed

lemma below_10_cases:
  assumes "d < (10::nat)"
  shows "d \<in> {0, 1, 2, 3, 4, 5, 6, 7, 8, 9}"
  using assms by (simp only: insert_iff empty_iff) arith

lemma digit_char_decimal:
  assumes "d < 10"
  shows "digit_char d \<in> set ''0123456789''"
    and "of_char (digit_char d) - 48 = d"
    and "(digit_char d = CHR ''0'') = (d = 0)"
  using below_10_cases [OF assms] by (auto simp: digit_char_def)

lemma dec_of_nat_not_Nil: "dec_of_nat n \<noteq> []"
  by (simp add: dec_of_nat.simps [of n])

lemma decimal_dec_of_nat: "decimal n (dec_of_nat n)"
proof (induction n rule: dec_of_nat.induct)
  case (1 n)
  show ?case
  proof (cases "n < 10")
    case True
    have "digit_char 0 = CHR ''0''"
      by (simp add: digit_char_def)
    then show ?thesis
      using True digit_char_decimal [of n]
      by (auto simp: dec_of_nat.simps [of n] decimal_def)
  next
    case False
    let ?q = "dec_of_nat (n div 10)"
    have q: "decimal (n div 10) ?q"
      by (rule "1.IH" [OF False])
    have m: "n mod 10 < 10" by simp
    have d: "dec_of_nat n = ?q @ [digit_char (n mod 10)]"
      using False by (simp add: dec_of_nat.simps [of n])
    have nz: "n div 10 \<noteq> 0"
      using False by simp
    have h: "hd ?q \<noteq> CHR ''0''"
    proof
      assume "hd ?q = CHR ''0''"
      then have "?q = ''0''" using q by (simp add: decimal_def)
      then have "n div 10 = 0" using q by (simp add: decimal_def)
      then show False using nz by simp
    qed
    have "hd (dec_of_nat n) \<noteq> CHR ''0''"
      using h q unfolding d by (simp add: decimal_def)
    moreover have "list_all (\<lambda>c. c \<in> set ''0123456789'') (dec_of_nat n)"
      using q digit_char_decimal(1) [OF m] unfolding d by (simp add: decimal_def)
    moreover have "foldl (\<lambda>v c. 10 * v + (of_char c - 48)) 0 (dec_of_nat n) = n"
      using q digit_char_decimal(2) [OF m] unfolding d by (simp add: decimal_def)
    ultimately show ?thesis
      by (simp add: decimal_def dec_of_nat_not_Nil)
  qed
qed

lemma arg_text_format_arg: "arg_text e a (format_arg e a)"
  by (cases a) (simp_all add: arg_text_def format_arg_def dec_of_int_def decimal_dec_of_nat)

text \<open>
  Claim C5, as amended. For every command name and every list of arguments, \<^verbatim>\<open>writeSerial\<close>
  hands the port one packet: the two start bytes; then the body, which is the decimal numeral
  of the write counter, a tab, the name and, for each argument, a tab and its formatted text;
  then the checksum of the body (the sum of its bytes modulo 256) as two lower-case hex
  digits, the first being 0 below 0x10; then the stop byte. When the write to the port
  returns, the write counter has gone up by exactly one, whatever number of bytes the port
  reports as sent. Nothing guards the write: when it throws, the exception leaves
  \<^verbatim>\<open>writeSerial\<close> and the counter is as it was. Apart from that only the log changes: one
  entry per format character that is not d, u, s or f.
\<close>

theorem writeSerial_packet:
  fixes e :: "'f env" and b :: "'f bridge" and name :: string and args :: "'f arg list"
  shows "\<exists>num texts.
           decimal (unat (writePacketNum b)) num \<and>
           list_all2 (arg_text e) args texts \<and>
           (let body = num @ [TAB] @ name @ concat (map (\<lambda>t. TAB # t) texts);
                checksum = sum_list (map of_char body) mod 256;
                packet = [PACKET_START_0, PACKET_START_1] @ body
                           @ [''0123456789abcdef'' ! (checksum div 16),
                              ''0123456789abcdef'' ! (checksum mod 16), PACKET_STOP];
                handed = b\<lparr>logs := logs b
                             @ concat (map (\<lambda>a. case a of Invalid c \<Rightarrow> [InvalidFormat c]
                                                 | _ \<Rightarrow> []) args),
                           tx := tx b @ [packet]\<rparr>
            in writeSerial e name args b =
                 (case written e (length (tx b)) packet of
                    Inl x \<Rightarrow> (Inl x, handed)
                  | Inr count \<Rightarrow>
                      (Inr (), handed\<lparr>wire := wire b @ take count packet,
                                      writePacketNum := writePacketNum b + 1\<rparr>)))"
proof (intro exI conjI)
  show "decimal (unat (writePacketNum b)) (dec_of_nat (unat (writePacketNum b)))"
    by (rule decimal_dec_of_nat)
  show "list_all2 (arg_text e) args (map (format_arg e) args)"
    by (simp add: list_all2_conv_all_nth arg_text_format_arg)
  have f: "[PACKET_START_0, PACKET_START_1]
             @ (dec_of_nat (unat (writePacketNum b)) @ [TAB] @ name
                  @ concat (map (\<lambda>t. TAB # t) (map (format_arg e) args)))
             @ [''0123456789abcdef''
                  ! (sum_list (map of_char
                       (dec_of_nat (unat (writePacketNum b)) @ [TAB] @ name
                          @ concat (map (\<lambda>t. TAB # t) (map (format_arg e) args)))) mod 256
                     div 16),
                ''0123456789abcdef''
                  ! (sum_list (map of_char
                       (dec_of_nat (unat (writePacketNum b)) @ [TAB] @ name
                          @ concat (map (\<lambda>t. TAB # t) (map (format_arg e) args)))) mod 256
                     mod 16),
                PACKET_STOP]
           = frame_of e (writePacketNum b) name args"
    by (simp add: frame_of_def frame_body_def digit_char_def comp_def)
  show "let body = dec_of_nat (unat (writePacketNum b)) @ [TAB] @ name
                     @ concat (map (\<lambda>t. TAB # t) (map (format_arg e) args));
            checksum = sum_list (map of_char body) mod 256;
            packet = [PACKET_START_0, PACKET_START_1] @ body
                       @ [''0123456789abcdef'' ! (checksum div 16),
                          ''0123456789abcdef'' ! (checksum mod 16), PACKET_STOP];
            handed = b\<lparr>logs := logs b
                         @ concat (map (\<lambda>a. case a of Invalid c \<Rightarrow> [InvalidFormat c]
                                             | _ \<Rightarrow> []) args),
                       tx := tx b @ [packet]\<rparr>
        in writeSerial e name args b =
             (case written e (length (tx b)) packet of
                Inl x \<Rightarrow> (Inl x, handed)
              | Inr count \<Rightarrow>
                  (Inr (), handed\<lparr>wire := wire b @ take count packet,
                                  writePacketNum := writePacketNum b + 1\<rparr>))"
    unfolding Let_def f by (rule writeSerial_layout)
qed

text \<open>
  The claim as stated fails on a port whose write throws: the packet was encoded and handed
  to the port, and the write counter is still 0.
\<close>

theorem write_exception_keeps_counter:
  "writeSerial (sample_env\<lparr>written := \<lambda>k packet. Inl SerialException\<rparr>) ''<>'' [Signed 1]
     (DodobotSerialBridge sample_env)
     = (Inl SerialException,
        (DodobotSerialBridge sample_env)
          \<lparr>tx := [[PACKET_START_0, PACKET_START_1] @ ''0'' @ [TAB] @ ''<>'' @ [TAB] @ ''1''
                    @ ''ed'' @ [PACKET_STOP]]\<rparr>) \<and>
   writePacketNum
     (snd (writeSerial (sample_env\<lparr>written := \<lambda>k packet. Inl SerialException\<rparr>) ''<>''
             [Signed 1] (DodobotSerialBridge sample_env))) = 0"
  by (simp add: eval_defs)

text \<open>
  The theorem at two calls: with the write counter at 1234, a command with an unsigned, a
  negative signed, a string and a float argument (checksum 0x36) on a port that sends the
  whole packet; then, with the counter at 1, a tilter command whose checksum 0x07 is padded,
  on a port that reports no byte sent.
\<close>

theorem writeSerial_packet_witness:
  "(\<exists>num texts.
      decimal 1234 num \<and>
      list_all2 (arg_text sample_env)
        [Unsigned 4000000000, Signed (- 17), Str ''ab'', Float ''0.2500''] texts \<and>
      num @ [TAB] @ ''ks'' @ concat (map (\<lambda>t. TAB # t) texts)
        = ''1234'' @ [TAB] @ ''ks'' @ [TAB] @ ''4000000000'' @ [TAB] @ ''-17'' @ [TAB] @ ''ab''
            @ [TAB] @ ''0.2500'') \<and>
   writeSerial sample_env ''ks''
     [Unsigned 4000000000, Signed (- 17), Str ''ab'', Float ''0.2500'']
     ((DodobotSerialBridge sample_env)\<lparr>writePacketNum := 1234\<rparr>)
     = (Inr (),
        (DodobotSerialBridge sample_env)
          \<lparr>writePacketNum := 1235,
           tx := [[PACKET_START_0, PACKET_START_1] @ ''1234'' @ [TAB] @ ''ks'' @ [TAB]
                    @ ''4000000000'' @ [TAB] @ ''-17'' @ [TAB] @ ''ab'' @ [TAB] @ ''0.2500''
                    @ ''36'' @ [PACKET_STOP]],
           wire := [PACKET_START_0, PACKET_START_1] @ ''1234'' @ [TAB] @ ''ks'' @ [TAB]
                    @ ''4000000000'' @ [TAB] @ ''-17'' @ [TAB] @ ''ab'' @ [TAB] @ ''0.2500''
                    @ ''36'' @ [PACKET_STOP]\<rparr>) \<and>
   writeSerial (sample_env\<lparr>written := \<lambda>k packet. Inr 0\<rparr>) ''tilter'' [Signed 0]
     ((DodobotSerialBridge sample_env)\<lparr>writePacketNum := 1\<rparr>)
     = (Inr (),
        (DodobotSerialBridge sample_env)
          \<lparr>writePacketNum := 2,
           tx := [[PACKET_START_0, PACKET_START_1] @ ''1'' @ [TAB] @ ''tilter'' @ [TAB] @ ''0''
                    @ ''07'' @ [PACKET_STOP]]\<rparr>)"
proof (intro conjI)
  let ?b = "(DodobotSerialBridge sample_env)\<lparr>writePacketNum := 1234\<rparr>"
  let ?args = "[Unsigned 4000000000, Signed (- 17), Str ''ab'', Float ''0.2500'']"
  have w: "writeSerial sample_env ''ks'' ?args ?b
     = (Inr (),
        (DodobotSerialBridge sample_env)
          \<lparr>writePacketNum := 1235,
           tx := [[PACKET_START_0, PACKET_START_1] @ ''1234'' @ [TAB] @ ''ks'' @ [TAB]
                    @ ''4000000000'' @ [TAB] @ ''-17'' @ [TAB] @ ''ab'' @ [TAB] @ ''0.2500''
                    @ ''36'' @ [PACKET_STOP]],
           wire := [PACKET_START_0, PACKET_START_1] @ ''1234'' @ [TAB] @ ''ks'' @ [TAB]
                    @ ''4000000000'' @ [TAB] @ ''-17'' @ [TAB] @ ''ab'' @ [TAB] @ ''0.2500''
                    @ ''36'' @ [PACKET_STOP]\<rparr>)"
    by (simp add: eval_defs)
  show "writeSerial sample_env ''ks'' ?args ?b
     = (Inr (),
        (DodobotSerialBridge sample_env)
          \<lparr>writePacketNum := 1235,
           tx := [[PACKET_START_0, PACKET_START_1] @ ''1234'' @ [TAB] @ ''ks'' @ [TAB]
                    @ ''4000000000'' @ [TAB] @ ''-17'' @ [TAB] @ ''ab'' @ [TAB] @ ''0.2500''
                    @ ''36'' @ [PACKET_STOP]],
           wire := [PACKET_START_0, PACKET_START_1] @ ''1234'' @ [TAB] @ ''ks'' @ [TAB]
                    @ ''4000000000'' @ [TAB] @ ''-17'' @ [TAB] @ ''ab'' @ [TAB] @ ''0.2500''
                    @ ''36'' @ [PACKET_STOP]\<rparr>)"
    by (rule w)
  show "writeSerial (sample_env\<lparr>written := \<lambda>k packet. Inr 0\<rparr>) ''tilter'' [Signed 0]
     ((DodobotSerialBridge sample_env)\<lparr>writePacketNum := 1\<rparr>)
     = (Inr (),
        (DodobotSerialBridge sample_env)
          \<lparr>writePacketNum := 2,
           tx := [[PACKET_START_0, PACKET_START_1] @ ''1'' @ [TAB] @ ''tilter'' @ [TAB] @ ''0''
                    @ ''07'' @ [PACKET_STOP]]\<rparr>)"
    by (simp add: eval_defs)
  obtain num texts where
    n: "decimal (unat (writePacketNum ?b)) num" and
    t: "list_all2 (arg_text sample_env) ?args texts" and
    p: "let body = num @ [TAB] @ ''ks'' @ concat (map (\<lambda>t. TAB # t) texts);
            checksum = sum_list (map of_char body) mod 256;
            packet = [PACKET_START_0, PACKET_START_1] @ body
                       @ [''0123456789abcdef'' ! (checksum div 16),
                          ''0123456789abcdef'' ! (checksum mod 16), PACKET_STOP];
            handed = ?b\<lparr>logs := logs ?b
                         @ concat (map (\<lambda>a. case a of Invalid c \<Rightarrow> [InvalidFormat c]
                                             | _ \<Rightarrow> []) ?args),
                       tx := tx ?b @ [packet]\<rparr>
        in writeSerial sample_env ''ks'' ?args ?b =
             (case written sample_env (length (tx ?b)) packet of
                Inl x \<Rightarrow> (Inl x, handed)
              | Inr count \<Rightarrow>
                  (Inr (), handed\<lparr>wire := wire ?b @ take count packet,
                                  writePacketNum := writePacketNum ?b + 1\<rparr>))"
    using writeSerial_packet [of ?b sample_env ?args "''ks''"] by blast
  define body where "body = num @ [TAB] @ ''ks'' @ concat (map (\<lambda>t. TAB # t) texts)"
  define h1 where "h1 = ''0123456789abcdef'' ! (sum_list (map of_char body) mod 256 div 16)"
  define h0 where "h0 = ''0123456789abcdef'' ! (sum_list (map of_char body) mod 256 mod 16)"
  have wr: "written sample_env k packet = Inr (length packet)" for k packet
    by (simp add: sample_env_def)
  have "tx ?b = []"
    by (simp add: DodobotSerialBridge_def)
  then have F: "tx (snd (writeSerial sample_env ''ks'' ?args ?b))
          = [[PACKET_START_0, PACKET_START_1] @ body @ [h1, h0, PACKET_STOP]]"
    using p unfolding Let_def wr sum.case
    by (simp add: body_def h1_def h0_def)
  let ?lit = "''1234'' @ [TAB] @ ''ks'' @ [TAB] @ ''4000000000'' @ [TAB] @ ''-17'' @ [TAB]
                @ ''ab'' @ [TAB] @ ''0.2500''"
  have G: "tx (snd (writeSerial sample_env ''ks'' ?args ?b))
          = [[PACKET_START_0, PACKET_START_1] @ ?lit @ [CHR ''3'', CHR ''6'', PACKET_STOP]]"
    unfolding w by (simp add: DodobotSerialBridge_def)
  have "[[PACKET_START_0, PACKET_START_1] @ body @ [h1, h0, PACKET_STOP]]
          = [[PACKET_START_0, PACKET_START_1] @ ?lit @ [CHR ''3'', CHR ''6'', PACKET_STOP]]"
    by (rule trans [OF F [symmetric] G])
  then have "body @ [h1, h0, PACKET_STOP] = ?lit @ [CHR ''3'', CHR ''6'', PACKET_STOP]"
    by (simp only: list.inject same_append_eq simp_thms)
  moreover have "length [h1, h0, PACKET_STOP] = length [CHR ''3'', CHR ''6'', PACKET_STOP]"
    by simp
  ultimately have "body = ?lit"
    using append_eq_append_conv [OF disjI2] by blast
  moreover have "decimal 1234 num"
    using n by (simp add: DodobotSerialBridge_def)
  ultimately show "\<exists>num texts.
      decimal 1234 num \<and>
      list_all2 (arg_text sample_env) ?args texts \<and>
      num @ [TAB] @ ''ks'' @ concat (map (\<lambda>t. TAB # t) texts)
        = ''1234'' @ [TAB] @ ''ks'' @ [TAB] @ ''4000000000'' @ [TAB] @ ''-17'' @ [TAB] @ ''ab''
            @ [TAB] @ ''0.2500''"
    using t unfolding body_def by blast
qed

section \<open>Clock synchronizer\<close>

lemma device_offset_wrap:
  assumes "time_ms < (offset :: uint32)"
  shows "device_offset_ms time_ms offset = 2 ^ 32 - (unat offset - unat time_ms)"
proof -
  have l: "unat time_ms < unat offset"
    using assms by (simp add: word_less_nat_alt)
  have o: "unat offset < 2 ^ 32"
    using unsigned_less [of offset, where 'a = nat] by simp
  have "unat (time_ms - offset) = unat time_ms + 2 ^ 32 - unat offset"
    using l by (simp add: unat_sub_if')
  then show ?thesis
    using l o by (simp add: device_offset_ms_def)
qed

lemma device_offset_bound: "device_offset_ms time_ms offset < 2 ^ 32"
  using unsigned_less [of "time_ms - offset", where 'a = nat]
  by (simp add: device_offset_ms_def)

text \<open>
  Claim C10. The offset that \<^verbatim>\<open>getDeviceTime\<close> adds to the reference host time is the
  difference of the two millisecond counts in \<^verbatim>\<open>uint32_t\<close>: it is never negative and stays
  below \<open>2^32\<close> ms, so the host time is never before the reference. For a device time
  stamp below the reference the difference wraps: the offset is \<open>2^32\<close> ms less the
  distance between the two, and the host time lies that far after the reference (times are
  in nanoseconds).
\<close>

theorem device_time_wraps:
  fixes b :: "'f bridge"
  shows "device_offset_ms time_ms (offsetTimeMs b) < 2 ^ 32 \<and>
         deviceStartTime b \<le> getDeviceTime b time_ms \<and>
         (time_ms < offsetTimeMs b \<longrightarrow>
            device_offset_ms time_ms (offsetTimeMs b) =
              2 ^ 32 - (unat (offsetTimeMs b) - unat time_ms) \<and>
            getDeviceTime b time_ms =
              deviceStartTime b
                + (2 ^ 32 - (int (unat (offsetTimeMs b)) - int (unat time_ms))) * 1000000 \<and>
            deviceStartTime b < getDeviceTime b time_ms)"
proof (intro conjI impI)
  show "device_offset_ms time_ms (offsetTimeMs b) < 2 ^ 32"
    by (rule device_offset_bound)
  show "deviceStartTime b \<le> getDeviceTime b time_ms"
    by (simp add: getDeviceTime_def)
next
  assume lt: "time_ms < offsetTimeMs b"
  have l: "unat time_ms < unat (offsetTimeMs b)"
    using lt by (simp add: word_less_nat_alt)
  have o: "unat (offsetTimeMs b) < 2 ^ 32"
    using unsigned_less [of "offsetTimeMs b", where 'a = nat] by simp
  show w: "device_offset_ms time_ms (offsetTimeMs b) =
             2 ^ 32 - (unat (offsetTimeMs b) - unat time_ms)"
    by (rule device_offset_wrap [OF lt])
  have i: "int (device_offset_ms time_ms (offsetTimeMs b)) =
             2 ^ 32 - (int (unat (offsetTimeMs b)) - int (unat time_ms))"
    unfolding w using l o by (simp add: of_nat_diff del: of_nat_unat)
  show "getDeviceTime b time_ms =
          deviceStartTime b
            + (2 ^ 32 - (int (unat (offsetTimeMs b)) - int (unat time_ms))) * 1000000"
    unfolding getDeviceTime_def i by simp
  have "0 < device_offset_ms time_ms (offsetTimeMs b)"
    unfolding w using o by simp
  then show "deviceStartTime b < getDeviceTime b time_ms"
    by (simp add: getDeviceTime_def)
qed

text \<open>
  The theorem at a reference of 1000 ms and a device time stamp of 999 ms: the host time is
  4294967295 ms after the reference.
\<close>

theorem device_time_wraps_witness:
  "(999 :: uint32) < offsetTimeMs ((DodobotSerialBridge sample_env)\<lparr>offsetTimeMs := 1000\<rparr>) \<and>
   device_offset_ms 999 1000 = 4294967295 \<and>
   getDeviceTime ((DodobotSerialBridge sample_env)\<lparr>offsetTimeMs := 1000\<rparr>) 999
     = 4294967295000000"
  using device_time_wraps [of 999 "(DodobotSerialBridge sample_env)\<lparr>offsetTimeMs := 1000\<rparr>"]
  by (simp add: DodobotSerialBridge_def sample_env_def)

section \<open>Packet dispatcher: the state category\<close>








section \<open>Frame receiver: the two waiting loops\<close>

lemma receive_some:
  assumes "readSerial_receive received0 b0 = Some y0"
  shows "PACKET_STOP \<in> set (rx b0) \<or> 0xfff < length received0 + length (rx b0)"
proof (rule readSerial_receive.raw_induct
    [where P = "\<lambda>received b y. PACKET_STOP \<in> set (rx b) \<or> 0xfff < length received + length (rx b)",
      OF _ assms])
  fix f :: "string \<Rightarrow> 'a bridge \<Rightarrow> ((exn + string) \<times> 'a bridge) option"
    and received b y
  assume IH: "\<And>received b y. f received b = Some y \<Longrightarrow>
                PACKET_STOP \<in> set (rx b) \<or> 0xfff < length received + length (rx b)"
    and eq: "(case rx b of
                [] \<Rightarrow> f received b
              | c # r \<Rightarrow>
                  if c = PACKET_STOP then Some (Inr received, b\<lparr>rx := r\<rparr>)
                  else if 0xfff \<le> length received then Some (Inl BufferOverrun, b\<lparr>rx := r\<rparr>)
                  else f (received @ [c]) (b\<lparr>rx := r\<rparr>)) = Some y"
  show "PACKET_STOP \<in> set (rx b) \<or> 0xfff < length received + length (rx b)"
  proof (cases "rx b")
    case Nil
    then have "f received b = Some y" using eq by simp
    from IH [OF this] show ?thesis .
  next
    case (Cons c r)
    show ?thesis
    proof (cases "c = PACKET_STOP \<or> 0xfff \<le> length received")
      case True
      then show ?thesis using Cons by auto
    next
      case False
      then have "f (received @ [c]) (b\<lparr>rx := r\<rparr>) = Some y"
        using eq Cons by simp
      from IH [OF this] show ?thesis using Cons by auto
    qed
  qed
qed

lemma receive_returns:
  "PACKET_STOP \<in> set (rx b) \<Longrightarrow> \<exists>y. readSerial_receive received b = Some y"
proof (induction "rx b" arbitrary: received b)
  case Nil
  then show ?case by simp
next
  case (Cons c r)
  have rxb: "rx b = c # r" using Cons(2) by simp
  show ?case
  proof (cases "c = PACKET_STOP \<or> 0xfff \<le> length received")
    case True
    then show ?thesis
      by (subst readSerial_receive.simps) (auto simp: rxb)
  next
    case False
    then have "PACKET_STOP \<in> set r" using Cons(3) rxb by auto
    then have "\<exists>y. readSerial_receive (received @ [c]) (b\<lparr>rx := r\<rparr>) = Some y"
      using Cons(1) [of "b\<lparr>rx := r\<rparr>" "received @ [c]"] by simp
    then show ?thesis
      using False by (subst readSerial_receive.simps) (auto simp: rxb)
  qed
qed

lemma receive_blocks:
  "PACKET_STOP \<notin> set (rx b) \<Longrightarrow> length received + length (rx b) \<le> 0xfff \<Longrightarrow>
     readSerial_receive received b = None"
  using receive_some [of received b] by (cases "readSerial_receive received b") auto

lemma wait_loop_returns:
  assumes "ticks b \<le> k" "wait_timeout < clock e k - wait_time"
  shows "\<exists>r b'. waitForPacketStart_loop e wait_time c2 msg_buffer b = Some (r, b') \<and>
                 ticks b' \<le> Suc k"
  using assms
proof (induction "k - ticks b" arbitrary: b c2 msg_buffer rule: less_induct)
  case less
  show ?case
  proof (cases "wait_timeout < clock e (ticks b) - wait_time")
    case True
    then show ?thesis
      using less.prems
      by (subst waitForPacketStart_loop.simps) (auto simp: now_def)
  next
    case False
    then have "ticks b \<noteq> k" using less.prems by auto
    then have lt: "ticks b < k" using less.prems by simp
    have IH: "\<exists>r b'. waitForPacketStart_loop e wait_time c m (b\<lparr>ticks := Suc (ticks b), rx := x\<rparr>) = Some (r, b')
                  \<and> ticks b' \<le> Suc k" for c m x
      using less.hyps [of "b\<lparr>ticks := Suc (ticks b), rx := x\<rparr>" c m] less.prems lt by simp
    have IH0: "\<exists>r b'. waitForPacketStart_loop e wait_time c m (b\<lparr>ticks := Suc (ticks b)\<rparr>) = Some (r, b')
                  \<and> ticks b' \<le> Suc k" for c m
      using less.hyps [of "b\<lparr>ticks := Suc (ticks b)\<rparr>" c m] less.prems lt by simp
    show ?thesis
      using False IH IH0 lt
      by (subst waitForPacketStart_loop.simps)
         (auto simp: now_def add_log_def split: list.splits)
  qed
qed

lemma wait_loop_frame:
  assumes "waitForPacketStart_loop e0 w0 c0 m0 b0 = Some (r0, b0')"
  shows "(r0 \<longrightarrow> has_start_pair (rx b0)) \<and> (\<exists>x t l. b0' = b0\<lparr>rx := x, ticks := t, logs := l\<rparr>)"
proof -
  have "case (r0, b0') of (r, b') \<Rightarrow>
          (r \<longrightarrow> has_start_pair (rx b0)) \<and> (\<exists>x t l. b' = b0\<lparr>rx := x, ticks := t, logs := l\<rparr>)"
  proof (rule waitForPacketStart_loop.raw_induct
      [where P = "\<lambda>e w c m b y. case y of (r, b') \<Rightarrow>
          (r \<longrightarrow> has_start_pair (rx b)) \<and> (\<exists>x t l. b' = b\<lparr>rx := x, ticks := t, logs := l\<rparr>)",
        OF _ assms])
    fix f :: "'a env \<Rightarrow> int \<Rightarrow> char \<Rightarrow> string \<Rightarrow> 'a bridge \<Rightarrow> (bool \<times> 'a bridge) option"
      and e w c m b y
    assume IH: "\<And>e w c m b y. f e w c m b = Some y \<Longrightarrow>
        (case y of (r, b') \<Rightarrow>
          (r \<longrightarrow> has_start_pair (rx b)) \<and> (\<exists>x t l. b' = b\<lparr>rx := x, ticks := t, logs := l\<rparr>))"
      and eq: "(case now e b of
        (t, b1) \<Rightarrow>
          if t - w > wait_timeout then Some (False, b1)
          else
            (case rx b1 of
               c1 # n # r \<Rightarrow>
                 if c1 = PACKET_START_0
                 then (if n = PACKET_START_1 then Some (True, b1\<lparr>rx := r\<rparr>)
                       else f e w n m (b1\<lparr>rx := r\<rparr>))
                 else if c1 = PACKET_STOP \<or> c = PACKET_STOP
                 then Some (False, add_log (DeviceMessage m) (b1\<lparr>rx := n # r\<rparr>))
                 else f e w c (m @ [c1]) (b1\<lparr>rx := n # r\<rparr>)
             | _ \<Rightarrow> f e w c m b1)) = Some y"
    obtain r b' where y: "y = (r, b')" by (cases y)
    have upd: "\<exists>x t l. b\<lparr>ticks := t0, rx := x0, logs := l0\<rparr> = b\<lparr>rx := x, ticks := t, logs := l\<rparr>" for t0 x0 l0
      by (rule exI [of _ x0], rule exI [of _ t0], rule exI [of _ l0]) simp
    show "case y of (r, b') \<Rightarrow>
          (r \<longrightarrow> has_start_pair (rx b)) \<and> (\<exists>x t l. b' = b\<lparr>rx := x, ticks := t, logs := l\<rparr>)"
    proof (cases "wait_timeout < clock e (ticks b) - w")
      case True
      then have "y = (False, b\<lparr>ticks := ticks b + 1\<rparr>)"
        using eq by (simp add: now_def)
      then show ?thesis
        using upd [where ?t0.0 = "ticks b + 1" and ?x0.0 = "rx b" and ?l0.0 = "logs b"] by simp
    next
      case False
      note nt = False
      show ?thesis
      proof (cases "rx b")
        case Nil
        then have "f e w c m (b\<lparr>ticks := ticks b + 1\<rparr>) = Some y"
          using eq nt by (simp add: now_def)
        from IH [OF this] show ?thesis
          unfolding y by (auto simp: Nil)
      next
        case (Cons c1 r1)
        note c1 = Cons
        show ?thesis
        proof (cases r1)
          case Nil
          then have "f e w c m (b\<lparr>ticks := ticks b + 1\<rparr>) = Some y"
            using eq nt c1 by (simp add: now_def)
          from IH [OF this] show ?thesis
            unfolding y by (auto simp: c1 Nil)
        next
          case (Cons n r)
          consider (found) "c1 = PACKET_START_0" "n = PACKET_START_1"
            | (half) "c1 = PACKET_START_0" "n \<noteq> PACKET_START_1"
            | (stop) "c1 \<noteq> PACKET_START_0" "c1 = PACKET_STOP \<or> c = PACKET_STOP"
            | (noise) "c1 \<noteq> PACKET_START_0" "\<not> (c1 = PACKET_STOP \<or> c = PACKET_STOP)"
            by blast
          then show ?thesis
          proof cases
            case found
            then have "y = (True, b\<lparr>ticks := ticks b + 1, rx := r\<rparr>)"
              using eq nt c1 Cons by (simp add: now_def)
            then show ?thesis
              using found c1 Cons upd [where ?t0.0 = "ticks b + 1" and ?x0.0 = "r" and ?l0.0 = "logs b"] by simp
          next
            case half
            then have "f e w n m (b\<lparr>ticks := ticks b + 1, rx := r\<rparr>) = Some y"
              using eq nt c1 Cons by (simp add: now_def)
            from IH [OF this] show ?thesis
              unfolding y using c1 Cons by (cases r) auto
          next
            case stop
            then have "y = (False, b\<lparr>ticks := ticks b + 1, rx := n # r, logs := logs b @ [DeviceMessage m]\<rparr>)"
              using eq nt c1 Cons by (auto simp: now_def add_log_def)
            then show ?thesis
              using upd [where ?t0.0 = "ticks b + 1" and ?x0.0 = "n # r" and ?l0.0 = "logs b @ [DeviceMessage m]"] by simp
          next
            case noise
            then have "f e w c (m @ [c1]) (b\<lparr>ticks := ticks b + 1, rx := n # r\<rparr>) = Some y"
              using eq nt c1 Cons by (simp add: now_def)
            from IH [OF this] show ?thesis
              unfolding y using c1 Cons by auto
          qed
        qed
      qed
    qed
  qed
  then show ?thesis by simp
qed

lemma receive_frame:
  assumes "readSerial_receive received0 b0 = Some (r0, b0')"
  shows "\<exists>x. b0' = b0\<lparr>rx := x\<rparr>"
proof -
  have "case (r0, b0') of (r, b') \<Rightarrow> \<exists>x. b' = b0\<lparr>rx := x\<rparr>"
  proof (rule readSerial_receive.raw_induct
      [where P = "\<lambda>received b y. case y of (r, b') \<Rightarrow> \<exists>x. b' = b\<lparr>rx := x\<rparr>", OF _ assms])
    fix f :: "string \<Rightarrow> 'a bridge \<Rightarrow> ((exn + string) \<times> 'a bridge) option"
      and received b y
    assume IH: "\<And>received b y. f received b = Some y \<Longrightarrow>
                  (case y of (r, b') \<Rightarrow> \<exists>x. b' = b\<lparr>rx := x\<rparr>)"
      and eq: "(case rx b of
                  [] \<Rightarrow> f received b
                | c # r \<Rightarrow>
                    if c = PACKET_STOP then Some (Inr received, b\<lparr>rx := r\<rparr>)
                    else if 0xfff \<le> length received then Some (Inl BufferOverrun, b\<lparr>rx := r\<rparr>)
                    else f (received @ [c]) (b\<lparr>rx := r\<rparr>)) = Some y"
    show "case y of (r, b') \<Rightarrow> \<exists>x. b' = b\<lparr>rx := x\<rparr>"
    proof (cases "rx b")
      case Nil
      then have "f received b = Some y" using eq by simp
      from IH [OF this] show ?thesis .
    next
      case (Cons c r)
      show ?thesis
      proof (cases "c = PACKET_STOP \<or> 0xfff \<le> length received")
        case True
        then have "snd y = b\<lparr>rx := r\<rparr>" using eq Cons by (auto split: if_splits)
        then show ?thesis by (cases y) auto
      next
        case False
        then have "f (received @ [c]) (b\<lparr>rx := r\<rparr>) = Some y"
          using eq Cons by simp
        from IH [OF this] show ?thesis by (cases y) auto
      qed
    qed
  qed
  then show ?thesis by simp
qed

lemma outbound_simps [simp]:
  "outbound (b\<lparr>rx := x\<rparr>) = outbound b"
  "outbound (b\<lparr>ticks := t\<rparr>) = outbound b"
  "outbound (b\<lparr>logs := l\<rparr>) = outbound b"
  "outbound (b\<lparr>pubs := p\<rparr>) = outbound b"
  "outbound (b\<lparr>serialBuffer := s\<rparr>) = outbound b"
  "outbound (b\<lparr>serialBufferIndex := i\<rparr>) = outbound b"
  "outbound (b\<lparr>currentBufferSegment := s\<rparr>) = outbound b"
  "outbound (b\<lparr>currentSegmentNum := n\<rparr>) = outbound b"
  "outbound (b\<lparr>readPacketNum := k\<rparr>) = outbound b"
  "outbound (b\<lparr>readyState := rs\<rparr>) = outbound b"
  "outbound (b\<lparr>robotState := st\<rparr>) = outbound b"
  "outbound (b\<lparr>drive_msg := dm\<rparr>) = outbound b"
  "outbound (b\<lparr>fsr_msg := fm\<rparr>) = outbound b"
  "outbound (b\<lparr>gripper_msg := gm\<rparr>) = outbound b"
  "outbound (b\<lparr>linear_msg := lm\<rparr>) = outbound b"
  "outbound (b\<lparr>battery_msg := bm\<rparr>) = outbound b"
  "outbound (b\<lparr>tilter_msg := tm\<rparr>) = outbound b"
  "outbound (b\<lparr>deviceStartTime := d\<rparr>) = outbound b"
  "outbound (b\<lparr>offsetTimeMs := off\<rparr>) = outbound b"
  by (simp_all add: outbound_def)

lemma outbound_getNextSegment [simp]: "outbound (snd (getNextSegment b)) = outbound b"
  by (simp add: getNextSegment_def Let_def split: option.splits)

lemma outbound_CHECK_SEGMENT:
  assumes "\<And>s b'. outbound (snd (k s b')) = outbound b'"
  shows "outbound (snd (CHECK_SEGMENT b k)) = outbound b"
proof -
  obtain r b1 where g: "getNextSegment b = (r, b1)"
    by (cases "getNextSegment b")
  have "outbound b1 = outbound b"
    using outbound_getNextSegment [of b] g by simp
  then show ?thesis
    using assms g by (cases r) (simp_all add: CHECK_SEGMENT_def add_log_def)
qed

lemma outbound_convert:
  "(\<And>v b'. outbound (snd (k v b')) = outbound b') \<Longrightarrow>
     outbound (snd (convert r k b)) = outbound b"
  by (auto simp: convert_def split: sum.splits)

lemma outbound_add_log [simp]: "outbound (add_log x b) = outbound b"
  by (simp add: add_log_def)

lemma outbound_publish [simp]: "outbound (publish x b) = outbound b"
  by (simp add: publish_def)

lemma outbound_processSerialPacket:
  "outbound (snd (processSerialPacket e category b)) = outbound b"
  unfolding processSerialPacket_def parse_txrx_def parse_state_def parseDrive_def
    parseBumper_def parseFSR_def parseGripper_def parseLinear_def parseBattery_def
    parseTilter_def parse_ready_def logPacketErrorCode_def Let_def
  by (simp add: outbound_CHECK_SEGMENT outbound_convert)

text \<open>
  The two polling loops of the receiver. The start search keeps its deadline: as soon as some
  clock reading lies more than 50 ms after the one taken on entry, \<^verbatim>\<open>waitForPacketStart\<close> has
  returned, at the latest with the reading that follows it; and it returns true only if the
  port held the two start bytes next to each other, so on every input without a start pair
  the answer is "no frame yet". The loop that collects the frame after a start pair has no
  deadline: it returns when a stop byte is among the bytes received, and when none is (and
  the receive array is not overrun) it does not return.
\<close>

theorem start_search_bounded_collection_unbounded:
  fixes e :: "'f env" and b :: "'f bridge"
  shows "(\<forall>k. ticks b < k \<and> wait_timeout < clock e k - clock e (ticks b) \<longrightarrow>
            (\<exists>r b'. waitForPacketStart e b = Some (r, b') \<and> ticks b' \<le> Suc k \<and>
                    (r \<longrightarrow> has_start_pair (rx b)))) \<and>
         (PACKET_STOP \<notin> set (rx b) \<and> length (rx b) \<le> 0xfff \<longrightarrow>
            readSerial_receive [] b = None) \<and>
         (PACKET_STOP \<in> set (rx b) \<longrightarrow> (\<exists>y. readSerial_receive [] b = Some y))"
proof (intro conjI allI impI)
  fix k
  assume h: "ticks b < k \<and> wait_timeout < clock e k - clock e (ticks b)"
  let ?b1 = "b\<lparr>ticks := ticks b + 1\<rparr>"
  have "ticks ?b1 \<le> k" using h by simp
  from wait_loop_returns [OF this, of e "clock e (ticks b)" "indeterminate e" "[]"] h
  obtain r b' where res: "waitForPacketStart_loop e (clock e (ticks b)) (indeterminate e) [] ?b1
                          = Some (r, b')" and t: "ticks b' \<le> Suc k"
    by auto
  have "r \<longrightarrow> has_start_pair (rx b)"
    using wait_loop_frame [OF res] by simp
  then show "\<exists>r b'. waitForPacketStart e b = Some (r, b') \<and> ticks b' \<le> Suc k \<and>
                    (r \<longrightarrow> has_start_pair (rx b))"
    using res t by (simp add: waitForPacketStart_def now_def)
next
  assume "PACKET_STOP \<notin> set (rx b) \<and> length (rx b) \<le> 0xfff"
  then show "readSerial_receive [] b = None"
    using receive_blocks [of b "[]"] by simp
next
  assume "PACKET_STOP \<in> set (rx b)"
  then show "\<exists>y. readSerial_receive [] b = Some y"
    by (rule receive_returns)
qed

text \<open>
  The theorem on a new bridge: with the noise \<^verbatim>\<open>hello\<close> received, the start search gives up
  by the 53rd question and the collection would wait for ever; with a stop byte received
  the collection returns.
\<close>

theorem start_search_bounded_witness:
  "ticks ((DodobotSerialBridge sample_env)\<lparr>rx := ''hello''\<rparr>) < 52 \<and>
   wait_timeout < clock sample_env 52
                    - clock sample_env (ticks ((DodobotSerialBridge sample_env)\<lparr>rx := ''hello''\<rparr>)) \<and>
   (\<exists>b'. waitForPacketStart sample_env ((DodobotSerialBridge sample_env)\<lparr>rx := ''hello''\<rparr>)
            = Some (False, b') \<and> ticks b' \<le> 53) \<and>
   PACKET_STOP \<notin> set (rx ((DodobotSerialBridge sample_env)\<lparr>rx := ''hello''\<rparr>)) \<and>
   length (rx ((DodobotSerialBridge sample_env)\<lparr>rx := ''hello''\<rparr>)) \<le> 0xfff \<and>
   readSerial_receive [] ((DodobotSerialBridge sample_env)\<lparr>rx := ''hello''\<rparr>) = None \<and>
   PACKET_STOP \<in> set (rx ((DodobotSerialBridge sample_env)\<lparr>rx := ''hi'' @ [PACKET_STOP]\<rparr>)) \<and>
   (\<exists>y. readSerial_receive [] ((DodobotSerialBridge sample_env)\<lparr>rx := ''hi'' @ [PACKET_STOP]\<rparr>)
          = Some y)"
proof -
  let ?b = "(DodobotSerialBridge sample_env)\<lparr>rx := ''hello''\<rparr>"
  let ?c = "(DodobotSerialBridge sample_env)\<lparr>rx := ''hi'' @ [PACKET_STOP]\<rparr>"
  have t: "ticks ?b < 52 \<and> wait_timeout < clock sample_env 52 - clock sample_env (ticks ?b)"
    by (simp add: DodobotSerialBridge_def sample_env_def wait_timeout_def)
  have n: "\<not> has_start_pair (rx ?b)"
    by (simp add: PACKET_START_0_def)
  have s: "PACKET_STOP \<notin> set (rx ?b) \<and> length (rx ?b) \<le> 0xfff"
    by (simp add: PACKET_STOP_def)
  have p: "PACKET_STOP \<in> set (rx ?c)"
    by simp
  note th = start_search_bounded_collection_unbounded [of ?b sample_env]
  note tc = start_search_bounded_collection_unbounded [of ?c sample_env]
  from th t n obtain r b' where
    "waitForPacketStart sample_env ?b = Some (r, b') \<and> ticks b' \<le> Suc 52 \<and> \<not> r"
    by blast
  then have 1: "\<exists>b'. waitForPacketStart sample_env ?b = Some (False, b') \<and> ticks b' \<le> 53"
    by auto
  have 2: "readSerial_receive [] ?b = None"
    using th s by blast
  have 3: "\<exists>y. readSerial_receive [] ?c = Some y"
    using tc p by blast
  show ?thesis
    using t 1 s 2 p 3 by blast
qed

text \<open>
  Claim C9. The frame receiver is to wait in short bounded steps only and never to block
  indefinitely, the accumulation of bytes after a start pair included. The code does not
  keep to that: when a start pair is followed by bytes with no stop byte, as after a device
  that stops in the middle of a frame, \<^verbatim>\<open>readSerial\<close> finds the start pair and then never
  returns, although the clock of this environment keeps advancing. The \<^verbatim>\<open>while (true)\<close> that
  collects the frame consults neither the clock nor \<^verbatim>\<open>ros::ok()\<close>; the start search before it
  gives up after its 50 ms.
\<close>

theorem frame_collection_never_returns:
  "waitForPacketStart sample_env
     ((DodobotSerialBridge sample_env)\<lparr>rx := [PACKET_START_0, PACKET_START_1] @ ''0123''\<rparr>)
   = Some (True, (DodobotSerialBridge sample_env)\<lparr>ticks := 3, rx := ''0123''\<rparr>) \<and>
   readSerial sample_env
     ((DodobotSerialBridge sample_env)\<lparr>rx := [PACKET_START_0, PACKET_START_1] @ ''0123''\<rparr>)
   = None"
proof
  let ?b = "(DodobotSerialBridge sample_env)\<lparr>rx := [PACKET_START_0, PACKET_START_1] @ ''0123''\<rparr>"
  let ?b1 = "(DodobotSerialBridge sample_env)\<lparr>ticks := 3, rx := ''0123''\<rparr>"
  have w: "waitForPacketStart sample_env ?b = Some (True, ?b1)"
    by (simp add: eval_defs)
  have r: "readSerial_receive [] ?b1 = None"
    by (rule receive_blocks) (simp_all add: PACKET_STOP_def)
  show "waitForPacketStart sample_env ?b = Some (True, ?b1)"
    by (rule w)
  show "readSerial sample_env ?b = None"
    unfolding readSerial_def w by (simp add: r)
qed


section \<open>Readiness handshake: the probe\<close>

text \<open>Receiving never writes: \<^verbatim>\<open>readSerial\<close> leaves the sending side of the bridge alone.\<close>

lemma outbound_dispatch_tail:
  "outbound (snd (case getNextSegment b3 of
                    (False, b4) \<Rightarrow>
                      (Inr False, (add_log CategorySegmentMissing b4)
                                    \<lparr>readPacketNum := readPacketNum b4 + 1\<rparr>)
                  | (True, b4) \<Rightarrow>
                     (let category = currentBufferSegment b4;
                          b5 = b4\<lparr>serialBuffer :=
                                    take (length (serialBuffer b4) - 2) (serialBuffer b4)\<rparr>
                      in (case processSerialPacket e category b5 of
                            (Raised x, b6) \<Rightarrow> (Inr False, add_log (DispatchException x) b6)
                          | (Done, b6) \<Rightarrow>
                              (Inr True, b6\<lparr>readPacketNum := readPacketNum b6 + 1\<rparr>)
                          | (Returned, b6) \<Rightarrow>
                              (Inr True, b6\<lparr>readPacketNum := readPacketNum b6 + 1\<rparr>)))))
     = outbound b3"
proof -
  obtain r4 b4 where g4: "getNextSegment b3 = (r4, b4)"
    by (cases "getNextSegment b3")
  have o4: "outbound b4 = outbound b3"
    using outbound_getNextSegment [of b3] g4 by simp
  obtain fl b6 where p: "processSerialPacket e (currentBufferSegment b4)
        (b4\<lparr>serialBuffer := take (length (serialBuffer b4) - 2) (serialBuffer b4)\<rparr>)
        = (fl, b6)"
    by (cases "processSerialPacket e (currentBufferSegment b4)
        (b4\<lparr>serialBuffer := take (length (serialBuffer b4) - 2) (serialBuffer b4)\<rparr>)")
  have o6: "outbound b6 = outbound b3"
    using outbound_processSerialPacket [of e "currentBufferSegment b4"
        "b4\<lparr>serialBuffer := take (length (serialBuffer b4) - 2) (serialBuffer b4)\<rparr>"]
      p o4 by simp
  show ?thesis
    unfolding g4 using o4 p o6 by (cases r4; cases fl) (simp_all add: Let_def)
qed

lemma outbound_readSerial_segments:
  "outbound (snd (readSerial_segments e b)) = outbound b"
proof -
  obtain r2 b2 where g2: "getNextSegment b = (r2, b2)"
    by (cases "getNextSegment b")
  have o2: "outbound b2 = outbound b"
    using outbound_getNextSegment [of b] g2 by simp
  show ?thesis
  proof (cases r2)
    case False
    then show ?thesis
      using g2 o2 by (simp add: readSerial_segments_def)
  next
    case True
    show ?thesis
    proof (cases "stoi (currentBufferSegment b2)")
      case (Inl x)
      then show ?thesis
        using g2 o2 True by (simp add: readSerial_segments_def)
    next
      case (Inr n)
      show ?thesis
        unfolding readSerial_segments_def g2 Let_def
        using True Inr o2 by (simp add: outbound_dispatch_tail [unfolded Let_def])
    qed
  qed
qed

lemma outbound_readSerial_frame:
  "outbound (snd (readSerial_frame e b)) = outbound b"
  using outbound_readSerial_segments [of e "b\<lparr>serialBufferIndex := 0\<rparr>"]
  by (auto simp: readSerial_frame_def Let_def split: sum.splits)

lemma outbound_readSerial:
  assumes "readSerial e b = Some (r, b')"
  shows "outbound b' = outbound b"
proof -
  obtain found b1 where w: "waitForPacketStart e b = Some (found, b1)"
    using assms by (cases "waitForPacketStart e b") (auto simp: readSerial_def)
  have "waitForPacketStart_loop e (clock e (ticks b)) (indeterminate e) []
          (b\<lparr>ticks := ticks b + 1\<rparr>) = Some (found, b1)"
    using w by (simp add: waitForPacketStart_def now_def)
  from wait_loop_frame [OF this] have o1: "outbound b1 = outbound b"
    by auto
  show ?thesis
  proof (cases found)
    case False
    then show ?thesis
      using assms w o1 by (simp add: readSerial_def)
  next
    case True
    obtain res b2 where rc: "readSerial_receive [] b1 = Some (res, b2)"
      using assms w True by (cases "readSerial_receive [] b1") (auto simp: readSerial_def)
    from receive_frame [OF rc] have o2: "outbound b2 = outbound b"
      using o1 by auto
    show ?thesis
    proof (cases res)
      case (Inl x)
      then show ?thesis
        using assms w True rc o2 by (simp add: readSerial_def)
    next
      case (Inr received)
      obtain r6 b6 where f: "readSerial_frame e
            (b2\<lparr>serialBuffer := takeWhile (\<lambda>c. c \<noteq> NUL) received\<rparr>) = (r6, b6)"
        by (cases "readSerial_frame e
            (b2\<lparr>serialBuffer := takeWhile (\<lambda>c. c \<noteq> NUL) received\<rparr>)")
      have "outbound b6 = outbound b"
        using outbound_readSerial_frame
            [of e "b2\<lparr>serialBuffer := takeWhile (\<lambda>c. c \<noteq> NUL) received\<rparr>"] f o2
        by simp
      then show ?thesis
        using assms w True rc o2 Inr f
        by (auto simp: readSerial_def split: if_splits)
    qed
  qed
qed

lemma probes_Suc:
  "probes e n (Suc c) = probes e n c @ [frame_of e (n + word_of_nat c) ''?'' [Str ''dodobot'']]"
  by (simp add: probes_def)

lemma probes_append:
  "probes e n (a + c) = probes e n a @ probes e (n + word_of_nat a) c"
proof (induction c)
  case 0
  show ?case by (simp add: probes_def)
next
  case (Suc c)
  have w: "n + word_of_nat (a + c) = n + word_of_nat a + word_of_nat c"
    by (simp only: of_nat_add add.assoc)
  have "probes e n (a + Suc c) = probes e n (Suc (a + c))"
    by (simp only: add_Suc_right)
  also have "\<dots> = probes e n (a + c) @ [frame_of e (n + word_of_nat (a + c)) ''?'' [Str ''dodobot'']]"
    by (rule probes_Suc)
  also have "\<dots> = probes e n a @ probes e (n + word_of_nat a) (Suc c)"
    unfolding Suc.IH w probes_Suc [of e "n + word_of_nat a" c] by (simp only: append_assoc)
  finally show ?case .
qed

lemma probes_0: "probes e n 0 = []"
  by (simp add: probes_def)

lemma probe_run_same: "outbound b' = outbound b \<Longrightarrow> probe_run e b b'"
  unfolding probe_run_def outbound_def
  by (rule exI [of _ 0]) (simp add: probes_0)

lemma probe_run_trans:
  assumes "probe_run e b b1" "probe_run e b1 b2"
  shows "probe_run e b b2"
proof -
  obtain n where n: "tx b1 = tx b @ probes e (writePacketNum b) n"
      "writePacketNum b1 = writePacketNum b + word_of_nat n"
    using assms(1) unfolding probe_run_def by blast
  obtain m where m: "tx b2 = tx b1 @ probes e (writePacketNum b1) m"
      "writePacketNum b2 = writePacketNum b1 + word_of_nat m"
    using assms(2) unfolding probe_run_def by blast
  have "tx b2 = tx b @ probes e (writePacketNum b) (n + m)"
    unfolding m(1) n probes_append by (simp only: append_assoc)
  moreover have "writePacketNum b2 = writePacketNum b + word_of_nat (n + m)"
    unfolding m(2) n(2) by (simp only: of_nat_add add.assoc)
  ultimately show ?thesis
    unfolding probe_run_def by blast
qed

lemma probe_write:
  assumes "writeSerial e ''?'' [Str ''dodobot''] b = (r, b')"
  shows "tx b' = tx b @ probes e (writePacketNum b) (Suc 0)"
    and "r = Inr u \<Longrightarrow> writePacketNum b' = writePacketNum b + word_of_nat (Suc 0)"
  using assms
  by (auto simp: writeSerial_layout probes_Suc probes_0 split: sum.splits)

lemma probe_run_write:
  "writeSerial e ''?'' [Str ''dodobot''] b = (Inr u, b') \<Longrightarrow> probe_run e b b'"
  unfolding probe_run_def using probe_write [of e b "Inr u" b'] by blast

lemma probe_run_then:
  assumes "probe_run e b b1" "tx b2 = tx b1 @ probes e (writePacketNum b1) m"
  shows "\<exists>n. tx b2 = tx b @ probes e (writePacketNum b) n"
proof -
  obtain n where n: "tx b1 = tx b @ probes e (writePacketNum b) n"
      "writePacketNum b1 = writePacketNum b + word_of_nat n"
    using assms(1) unfolding probe_run_def by blast
  have "tx b2 = tx b @ probes e (writePacketNum b) (n + m)"
    unfolding assms(2) n probes_append by (simp only: append_assoc)
  then show ?thesis by blast
qed

lemma probe_run_tail: "probe_run e b b1 \<Longrightarrow> \<exists>n. tx b1 = tx b @ probes e (writePacketNum b) n"
  unfolding probe_run_def by blast

lemma checkReady_loop_probes:
  assumes "checkReady_loop e0 bt0 wt0 b0 = Some (r0, b0')"
  shows "\<exists>n. tx b0' = tx b0 @ probes e0 (writePacketNum b0) n"
proof -
  have "case (r0, b0') of (r, b') \<Rightarrow> \<exists>n. tx b' = tx b0 @ probes e0 (writePacketNum b0) n"
  proof (rule checkReady_loop.raw_induct
      [where P = "\<lambda>e bt wt b y. case y of (r, b') \<Rightarrow>
                    \<exists>n. tx b' = tx b @ probes e (writePacketNum b) n", OF _ assms])
    fix f :: "'a env \<Rightarrow> int \<Rightarrow> int \<Rightarrow> 'a bridge \<Rightarrow> ((exn + unit) \<times> 'a bridge) option"
      and e begin_time write_time b y
    assume IH: "\<And>e bt wt b y. f e bt wt b = Some y \<Longrightarrow>
                  (case y of (r, b') \<Rightarrow> \<exists>n. tx b' = tx b @ probes e (writePacketNum b) n)"
      and eq: "(if is_ready (readyState b) then Some (Inr (), b)
      else
        (case ok e b of
           (running, b1) \<Rightarrow>
             if \<not> running then Some (Inr (), b1)
             else
               (case now e b1 of
                  (t1, b2) \<Rightarrow>
                    if t1 - begin_time > general_timeout then Some (Inl ReadyTimeoutException, b2)
                    else
                      (case now e b2 of
                         (t2, b3) \<Rightarrow>
                           (case (if t2 - write_time > write_timeout
                                  then (case writeSerial e ''?'' [Str ''dodobot'']
                                               (add_log WritingSignalAgain b3) of
                                          (Inl x, bw) \<Rightarrow> (Inl x, bw)
                                        | (Inr _, bw) \<Rightarrow>
                                            (case now e bw of (t3, bn) \<Rightarrow> (Inr t3, bn)))
                                  else (Inr write_time, b3)) of
                              (Inl x, b4) \<Rightarrow> Some (Inl x, b4)
                            | (Inr write_time', b4) \<Rightarrow>
                                if 2 < length (rx b4)
                                then (case readSerial e b4 of
                                        None \<Rightarrow> None
                                      | Some (Inl x, b5) \<Rightarrow> Some (Inl x, b5)
                                      | Some (Inr _, b5) \<Rightarrow> f e begin_time write_time' b5)
                                else f e begin_time write_time' b4))))) = Some y"
    obtain r b' where y: "y = (r, b')" by (cases y)
    have cont: "\<exists>n. tx b' = tx b @ probes e (writePacketNum b) n"
      if p4: "probe_run e b b4"
        and eq': "(if 2 < length (rx b4)
                   then (case readSerial e b4 of
                           None \<Rightarrow> None
                         | Some (Inl x, b5) \<Rightarrow> Some (Inl x, b5)
                         | Some (Inr _, b5) \<Rightarrow> f e begin_time wt' b5)
                   else f e begin_time wt' b4) = Some y"
      for wt' b4
    proof (cases "2 < length (rx b4)")
      case False
      then have "f e begin_time wt' b4 = Some y" using eq' by simp
      from IH [OF this] obtain m where "tx b' = tx b4 @ probes e (writePacketNum b4) m"
        by (auto simp: y)
      then show ?thesis
        using probe_run_then [OF p4] by blast
    next
      case rd: True
      then obtain res b5 where rs: "readSerial e b4 = Some (res, b5)"
        using eq' by (cases "readSerial e b4") auto
      have p5: "probe_run e b b5"
        using probe_run_trans [OF p4 probe_run_same [OF outbound_readSerial [OF rs]]] .
      show ?thesis
      proof (cases res)
        case (Inl x)
        then have "b' = b5" using eq' rd rs y by simp
        then show ?thesis using probe_run_tail [OF p5] by simp
      next
        case (Inr u)
        then have "f e begin_time wt' b5 = Some y" using eq' rd rs by simp
        from IH [OF this] obtain m where "tx b' = tx b5 @ probes e (writePacketNum b5) m"
          by (auto simp: y)
        then show ?thesis
          using probe_run_then [OF p5] by blast
      qed
    qed
    have "\<exists>n. tx b' = tx b @ probes e (writePacketNum b) n"
    proof (cases "is_ready (readyState b)")
      case True
      then have "b' = b" using eq y by simp
      then show ?thesis using probe_run_tail [OF probe_run_same [of b b e]] by simp
    next
      case nr: False
      obtain running b1 where okb: "ok e b = (running, b1)"
        by (cases "ok e b")
      have o1: "outbound b1 = outbound b"
        using okb by (auto simp: ok_def)
      show ?thesis
      proof (cases running)
        case False
        then have "b' = b1" using eq y nr okb by simp
        then show ?thesis using probe_run_tail [OF probe_run_same [OF o1]] by simp
      next
        case run: True
        obtain t1 b2 where n1: "now e b1 = (t1, b2)"
          by (cases "now e b1")
        have o2: "outbound b2 = outbound b"
          using n1 o1 by (auto simp: now_def)
        show ?thesis
        proof (cases "t1 - begin_time > general_timeout")
          case True
          then have "b' = b2" using eq y nr okb run n1 by simp
          then show ?thesis using probe_run_tail [OF probe_run_same [OF o2]] by simp
        next
          case nt: False
          obtain t2 b3 where n2: "now e b2 = (t2, b3)"
            by (cases "now e b2")
          have o3: "outbound b3 = outbound b"
            using n2 o2 by (auto simp: now_def)
          have p3: "probe_run e b b3"
            by (rule probe_run_same [OF o3])
          show ?thesis
          proof (cases "t2 - write_time > write_timeout")
            case False
            have "(if 2 < length (rx b3)
                   then (case readSerial e b3 of
                           None \<Rightarrow> None
                         | Some (Inl x, b5) \<Rightarrow> Some (Inl x, b5)
                         | Some (Inr _, b5) \<Rightarrow> f e begin_time write_time b5)
                   else f e begin_time write_time b3) = Some y"
              using eq nr run nt False unfolding okb n1 n2 prod.case by simp
            then show ?thesis by (rule cont [OF p3])
          next
            case again: True
            obtain rw bw where ws:
              "writeSerial e ''?'' [Str ''dodobot''] (add_log WritingSignalAgain b3) = (rw, bw)"
              by (cases "writeSerial e ''?'' [Str ''dodobot''] (add_log WritingSignalAgain b3)")
            have pl: "probe_run e b (add_log WritingSignalAgain b3)"
              using probe_run_trans [OF p3 probe_run_same [of "add_log WritingSignalAgain b3" b3 e]]
              by simp
            show ?thesis
            proof (cases rw)
              case (Inl x)
              then have "b' = bw"
                using eq y nr run nt again unfolding okb n1 n2 prod.case ws by simp
              then show ?thesis
                using probe_run_then [OF pl probe_write(1) [OF ws]] by simp
            next
              case (Inr u)
              have pw: "probe_run e b bw"
                using probe_run_trans [OF pl probe_run_write] ws Inr by blast
              obtain t3 bn where n3: "now e bw = (t3, bn)"
                by (cases "now e bw")
              have "outbound bn = outbound bw"
                using n3 by (auto simp: now_def)
              then have pn: "probe_run e b bn"
                using probe_run_trans [OF pw probe_run_same] by blast
              have "(if 2 < length (rx bn)
                     then (case readSerial e bn of
                             None \<Rightarrow> None
                           | Some (Inl x, b5) \<Rightarrow> Some (Inl x, b5)
                           | Some (Inr _, b5) \<Rightarrow> f e begin_time t3 b5)
                     else f e begin_time t3 bn) = Some y"
                using eq nr run nt again Inr unfolding okb n1 n2 prod.case ws n3 by simp
              then show ?thesis by (rule cont [OF pn])
            qed
          qed
        qed
      qed
    qed
    then show "case y of (r, b') \<Rightarrow> \<exists>n. tx b' = tx b @ probes e (writePacketNum b) n"
      by (simp add: y)
  qed
  then show ?thesis by simp
qed

text \<open>
  Claim C7, as amended. The probe that \<^verbatim>\<open>checkReady\<close> transmits on entry, and again after
  every second without an answer, is \<^verbatim>\<open>writeSerial("?", "s", "dodobot")\<close>: the encoding of the
  command name \<^verbatim>\<open>?\<close> with the single string argument \<^verbatim>\<open>dodobot\<close> (\<^verbatim>\<open>s\<close> is the format tag of
  that argument, not the name). Whenever the handshake returns, by success or by an
  exception (the timeout, or one of the port), the packets it has written are one probe or
  more, numbered with successive write counters, and nothing else; and the first write is
  that frame.
\<close>

theorem handshake_sends_probe:
  fixes e :: "'f env" and b :: "'f bridge"
  assumes "checkReady e b = Some (r, b')"
  shows "(\<exists>n. tx b' = tx b @ map (\<lambda>i. frame_of e (writePacketNum b + word_of_nat i)
                                      ''?'' [Str ''dodobot'']) [0..<Suc n]) \<and>
         tx (snd (writeSerial e ''?'' [Str ''dodobot''] b))
           = tx b @ [frame_of e (writePacketNum b) ''?'' [Str ''dodobot'']]"
proof
  obtain t0 b1 where n0: "now e b = (t0, b1)" by (cases "now e b")
  obtain t1 b2 where n1: "now e b1 = (t1, b2)" by (cases "now e b1")
  have o2: "outbound b2 = outbound b"
    using n0 n1 by (auto simp: now_def)
  obtain rw bw where ws: "writeSerial e ''?'' [Str ''dodobot''] b2 = (rw, bw)"
    by (cases "writeSerial e ''?'' [Str ''dodobot''] b2")
  have w2: "tx bw = tx b @ probes e (writePacketNum b) (Suc 0)"
    using probe_write(1) [OF ws] o2 by (simp add: outbound_def)
  have "\<exists>m. tx b' = tx b @ probes e (writePacketNum b) (Suc 0 + m)"
  proof (cases rw)
    case (Inl x)
    then have "b' = bw"
      using assms unfolding checkReady_def n0 n1 prod.case ws by simp
    then have "tx b' = tx b @ probes e (writePacketNum b) (Suc 0 + 0)"
      using w2 by simp
    then show ?thesis by (rule exI)
  next
    case (Inr u)
    have c2: "writePacketNum bw = writePacketNum b + word_of_nat (Suc 0)"
      using probe_write(2) [OF ws Inr] o2 by (simp add: outbound_def)
    obtain r3 b3 where lp: "checkReady_loop e t0 t1 bw = Some (r3, b3)"
      using assms Inr unfolding checkReady_def n0 n1 prod.case ws
      by (cases "checkReady_loop e t0 t1 bw") auto
    have ob: "outbound b' = outbound b3"
      using assms Inr unfolding checkReady_def n0 n1 prod.case ws lp
      by (cases r3) (auto simp: setStartTime_def now_def split: if_splits)
    obtain m where m: "tx b3 = tx bw @ probes e (writePacketNum bw) m"
      using checkReady_loop_probes [OF lp] by blast
    have "tx b' = tx b3"
      using ob by (simp add: outbound_def)
    also have "\<dots> = (tx b @ probes e (writePacketNum b) (Suc 0))
                      @ probes e (writePacketNum b + word_of_nat (Suc 0)) m"
      unfolding m w2 c2 ..
    also have "\<dots> = tx b @ probes e (writePacketNum b) (Suc 0 + m)"
      unfolding probes_append by (simp only: append_assoc)
    finally show ?thesis by (rule exI)
  qed
  then obtain m where "tx b' = tx b @ probes e (writePacketNum b) (Suc 0 + m)"
    by blast
  then have "tx b' = tx b @ probes e (writePacketNum b) (Suc m)"
    by (simp only: add_Suc add_0)
  then show "\<exists>n. tx b' = tx b @ map (\<lambda>i. frame_of e (writePacketNum b + word_of_nat i)
                                      ''?'' [Str ''dodobot'']) [0..<Suc n]"
    unfolding probes_def by (rule exI [of _ m])
next
  show "tx (snd (writeSerial e ''?'' [Str ''dodobot''] b))
           = tx b @ [frame_of e (writePacketNum b) ''?'' [Str ''dodobot'']]"
    by (simp add: writeSerial_layout split: sum.split)
qed

text \<open>
  The claim as stated fails: on a new bridge that finds a good \<^verbatim>\<open>ready\<close> frame on the line, the
  handshake succeeds having written the one packet \<^verbatim>\<open>0 TAB ? TAB dodobot 6c\<close>; the encoding
  of the name \<^verbatim>\<open>s\<close> with the argument \<^verbatim>\<open>dodobot\<close> is \<^verbatim>\<open>0 TAB s TAB dodobot a0\<close>.
\<close>

lemmas handshake_defs = checkReady_def checkReady_loop.simps setStartTime_def
  general_timeout_def write_timeout_def frame_of_def frame_body_def

theorem probe_name_counterexample:
  "map_option (\<lambda>(r, b). (r, tx b, is_ready (readyState b)))
     (checkReady sample_env
        ((DodobotSerialBridge sample_env)
           \<lparr>rx := [PACKET_START_0, PACKET_START_1] @ ''0'' @ [TAB] @ ''ready'' @ [TAB] @ ''1500''
                    @ [TAB] @ ''dodocc'' @ [PACKET_STOP]\<rparr>))
     = Some (Inr (),
             [[PACKET_START_0, PACKET_START_1] @ ''0'' @ [TAB] @ ''?'' @ [TAB] @ ''dodobot6c''
                @ [PACKET_STOP]],
             True) \<and>
   frame_of sample_env 0 ''s'' [Str ''dodobot'']
     = [PACKET_START_0, PACKET_START_1] @ ''0'' @ [TAB] @ ''s'' @ [TAB] @ ''dodobota0''
         @ [PACKET_STOP]"
  by (simp add: eval_defs handshake_defs)

text \<open>The theorem at that run of the handshake.\<close>

theorem handshake_sends_probe_witness:
  "\<exists>r b'. checkReady sample_env
            ((DodobotSerialBridge sample_env)
               \<lparr>rx := [PACKET_START_0, PACKET_START_1] @ ''0'' @ [TAB] @ ''ready'' @ [TAB]
                        @ ''1500'' @ [TAB] @ ''dodocc'' @ [PACKET_STOP]\<rparr>) = Some (r, b') \<and>
          (\<exists>n. tx b' = map (\<lambda>i. frame_of sample_env (word_of_nat i) ''?'' [Str ''dodobot''])
                          [0..<Suc n])"
proof -
  let ?b = "(DodobotSerialBridge sample_env)
               \<lparr>rx := [PACKET_START_0, PACKET_START_1] @ ''0'' @ [TAB] @ ''ready'' @ [TAB]
                        @ ''1500'' @ [TAB] @ ''dodocc'' @ [PACKET_STOP]\<rparr>"
  have "\<exists>y. checkReady sample_env ?b = Some y"
    by (simp add: eval_defs handshake_defs)
  then obtain r b' where c: "checkReady sample_env ?b = Some (r, b')"
    by auto
  have z: "tx ?b = [] \<and> writePacketNum ?b = 0"
    by (simp add: DodobotSerialBridge_def)
  from handshake_sends_probe [OF c] z
  have "\<exists>n. tx b' = map (\<lambda>i. frame_of sample_env (word_of_nat i) ''?'' [Str ''dodobot''])
                       [0..<Suc n]"
    by simp
  with c show ?thesis by blast
qed

end
